theory Spec2Isabelle
  imports Complex_Main
begin

section \<open>Data model\<close>

text \<open>
  JavaScript numbers are IEEE 754 doubles, and every arithmetic operation returns the
  exact result rounded to the nearest double.  Where a claim is about the value that
  repeated arithmetic produces, which is the case for the lane movement of
  \<open>playerUpdate\<close> and the jump of \<open>updatePlayer\<close>, each operation is modelled with
  its rounding (section \<open>Number arithmetic\<close>).  The coordinates of barriers and coins
  and the hit boxes are the exact values of the source's expressions: the claims
  about them count objects, compare positions with thresholds, or concern spawn
  positions, which are integers.  Lane numbers, which the code only ever moves by
  \<open>1\<close>, are integers.
\<close>

text \<open>\<open>THREE.Vector3\<close>: the \<open>position\<close> of a player, a barrier or a coin.\<close>

record vector3 =
  px :: real
  py :: real
  pz :: real

text \<open>\<open>THREE.Box3\<close>, an axis-aligned box given by its two corners.\<close>

record box3 =
  bmin :: vector3
  bmax :: vector3

text \<open>
  \<open>Box3.intersectsBox\<close> of three.js: the boxes intersect when they overlap on all
  three axes, touching faces included.
\<close>

definition intersectsBox :: "box3 \<Rightarrow> box3 \<Rightarrow> bool" where
  "intersectsBox this box =
     (px (bmax box) \<ge> px (bmin this) \<and> px (bmin box) \<le> px (bmax this) \<and>
      py (bmax box) \<ge> py (bmin this) \<and> py (bmin box) \<le> py (bmax this) \<and>
      pz (bmax box) \<ge> pz (bmin this) \<and> pz (bmin box) \<le> pz (bmax this))"

text \<open>\<open>defaultGameState\<close> of the game canvas, and the record it is a value of.\<close>

record gameState =
  speed :: real
  maxSpeed :: real
  gravity :: real
  score :: int
  coinCount :: int
  multiplier :: int
  currentLane :: int
  laneDistance :: real
  active :: bool
  maxCoins :: nat
  isSliding :: bool

definition defaultGameState :: gameState where
  "defaultGameState =
     \<lparr> speed = 3 / 10, maxSpeed = 1 / 2, gravity = - 20, score = 0, coinCount = 0,
       multiplier = 1, currentLane = 0, laneDistance = 4, active = True, maxCoins = 5,
       isSliding = False \<rparr>"

section \<open>Number arithmetic\<close>

text \<open>
  A finite double is \<open>0\<close> or \<open>m * 2 ^ (e - 52)\<close> with an integer \<open>m\<close> of 53 bits and an
  exponent \<open>e\<close> from \<open>-1022\<close> to \<open>1023\<close>.  \<open>binade y\<close> is the exponent of the
  doubles around \<open>y\<close>: the \<open>e\<close> with \<open>2 ^ e \<le> \<bar>y\<bar> < 2 ^ (e + 1)\<close>, and \<open>-1022\<close>
  below that (gradual underflow); \<open>ulp y\<close> is their spacing.
\<close>

definition pow2 :: "int \<Rightarrow> real" where
  "pow2 k = 2 powr of_int k"

definition binade :: "real \<Rightarrow> int" where
  "binade y = (if y = 0 then - 1022 else max (- 1022) \<lfloor>log 2 \<bar>y\<bar>\<rfloor>)"

definition ulp :: "real \<Rightarrow> real" where
  "ulp y = pow2 (binade y - 52)"

text \<open>The integer nearest to \<open>r\<close>, the even one of the two when \<open>r\<close> is half way.\<close>

definition roundTiesToEven :: "real \<Rightarrow> int" where
  "roundTiesToEven r =
     (let f = \<lfloor>r\<rfloor>
      in if r - of_int f < 1 / 2 then f
         else if 1 / 2 < r - of_int f then f + 1
         else if even f then f else f + 1)"

text \<open>
  The double that an operation with exact result \<open>y\<close> returns, in the default
  rounding mode (to nearest, ties to even).  Results of magnitude \<open>2 ^ 1024\<close> or
  more, which are \<open>Infinity\<close> in JavaScript, do not occur in what follows: there
  \<open>fl\<close> rounds as if exponents had no upper limit.  A number literal of the source,
  such as \<open>0.1\<close>, denotes \<open>fl\<close> of its decimal value.
\<close>

definition fl :: "real \<Rightarrow> real" where
  "fl y = of_int (roundTiesToEven (y / ulp y)) * ulp y"

definition representable :: "real \<Rightarrow> bool" where
  "representable d = (fl d = d)"

section \<open>Obstacles.js\<close>

definition LANE_OFFSETS :: "real list" where
  "LANE_OFFSETS = [- 3, 1, 5]"

definition MAX_BARRIERS :: nat where
  "MAX_BARRIERS = 10"

definition MIN_BARRIER_SPACING :: real where
  "MIN_BARRIER_SPACING = 25"

text \<open>
  The module state: the global \<open>barriers\<close> array and \<open>barrierState.lastBarrierZ\<close>.
  \<open>spawnLog\<close> is a history variable, not a variable of the program: it records, in
  order, every Z coordinate that a placement (initial or recycling) writes.
\<close>

record obstacles =
  barriers :: "vector3 list"
  lastBarrierZ :: real
  spawnLog :: "real list"

definition initialObstacles :: obstacles where
  "initialObstacles = \<lparr> barriers = [], lastBarrierZ = - 40, spawnLog = [] \<rparr>"

text \<open>
  \<open>Math.floor(Math.random() * LANE_OFFSETS.length)\<close> for a draw \<open>r\<close> of
  \<open>Math.random()\<close>, which lies in \<open>[0, 1)\<close>.
\<close>

definition laneIndex :: "real \<Rightarrow> nat" where
  "laneIndex r = nat \<lfloor>r * real (length LANE_OFFSETS)\<rfloor>"

text \<open>
  The success callback that \<open>initObstacles\<close> hands to the loader, which calls it
  once for each barrier that has loaded, some time after the request: the barrier is
  placed at the cursor, pushed on the array, and the cursor moves on by one spacing.
  \<open>r\<close> is the callback's draw of \<open>Math.random()\<close>.
\<close>

definition barrierLoaded :: "real \<Rightarrow> obstacles \<Rightarrow> obstacles" where
  "barrierLoaded r ob =
     (let laneX = LANE_OFFSETS ! laneIndex r;
          barrier = \<lparr> px = laneX, py = 1 / 2, pz = lastBarrierZ ob \<rparr>
      in ob \<lparr> barriers := barriers ob @ [barrier],
              lastBarrierZ := lastBarrierZ ob - MIN_BARRIER_SPACING,
              spawnLog := spawnLog ob @ [pz barrier] \<rparr>)"

text \<open>The two boxes that \<open>updateObstacles\<close> builds for the collision test.\<close>

definition playerBox :: "vector3 \<Rightarrow> box3" where
  "playerBox p =
     \<lparr> bmin = \<lparr> px = px p - 1 / 2, py = py p, pz = pz p - 1 / 2 \<rparr>,
       bmax = \<lparr> px = px p + 1 / 2, py = py p + 3 / 2, pz = pz p + 1 / 2 \<rparr> \<rparr>"

definition barrierBox :: "vector3 \<Rightarrow> box3" where
  "barrierBox b =
     \<lparr> bmin = \<lparr> px = px b - 1, py = py b, pz = pz b - 1 \<rparr>,
       bmax = \<lparr> px = px b + 1 / 2, py = py b + 1 / 2, pz = pz b + 7 / 10 \<rparr> \<rparr>"

definition collides :: "vector3 \<Rightarrow> vector3 \<Rightarrow> bool" where
  "collides p b = intersectsBox (playerBox p) (barrierBox b)"

text \<open>
  The first half of the loop body of \<open>updateObstacles\<close>: the barrier moves forward,
  and once past \<open>z > 10\<close> it takes a new lane and the slot one spacing behind the
  cursor.  The result is the barrier, the cursor and whether it was recycled.
\<close>

definition moveBarrier :: "real \<Rightarrow> real \<Rightarrow> real \<Rightarrow> vector3 \<Rightarrow> vector3 \<times> real \<times> bool" where
  "moveBarrier r spd cur b =
     (let b1 = b \<lparr> pz := pz b + spd \<rparr>
      in if pz b1 > 10
         then (b1 \<lparr> px := LANE_OFFSETS ! laneIndex r, pz := cur - MIN_BARRIER_SPACING \<rparr>,
               cur - MIN_BARRIER_SPACING, True)
         else (b1, cur, False))"

text \<open>
  \<open>barriers.forEach\<close> of \<open>updateObstacles\<close>.  The arguments after the barrier list
  are the cursor, the history of spawns and the state \<open>c\<close> of the caller, on which
  the callback \<open>onCollision\<close> acts; \<open>rand i\<close> is the draw made while barrier \<open>i\<close>
  is recycled.
\<close>

fun forEachBarrier ::
  "(nat \<Rightarrow> real) \<Rightarrow> real \<Rightarrow> vector3 \<Rightarrow> ('c \<Rightarrow> 'c) \<Rightarrow> nat \<Rightarrow> vector3 list \<Rightarrow> real \<Rightarrow> real list \<Rightarrow> 'c
     \<Rightarrow> vector3 list \<times> real \<times> real list \<times> 'c" where
  "forEachBarrier rand spd p onCollision i [] cur lg c = ([], cur, lg, c)"
| "forEachBarrier rand spd p onCollision i (b # bs) cur lg c =
     (case moveBarrier (rand i) spd cur b of
        (b', cur', recycled) \<Rightarrow>
          (case forEachBarrier rand spd p onCollision (Suc i) bs cur'
                  (if recycled then lg @ [pz b'] else lg)
                  (if collides p b' then onCollision c else c) of
             (bs', res) \<Rightarrow> (b' # bs', res)))"

text \<open>
  \<open>updateObstacles(scene, player, gameState, onCollision)\<close>.  A missing player is
  \<open>None\<close>: the function warns on the console and returns.
\<close>

definition updateObstacles ::
  "(nat \<Rightarrow> real) \<Rightarrow> vector3 option \<Rightarrow> gameState \<Rightarrow> ('c \<Rightarrow> 'c) \<Rightarrow> obstacles \<times> 'c \<Rightarrow> obstacles \<times> 'c" where
  "updateObstacles rand player gs onCollision s =
     (case player of
        None \<Rightarrow> s
      | Some p \<Rightarrow>
          (case forEachBarrier rand (speed gs * 2) p onCollision 0 (barriers (fst s))
                  (lastBarrierZ (fst s)) (spawnLog (fst s)) (snd s) of
             (bs', cur', lg', c') \<Rightarrow>
               (\<lparr> barriers = bs', lastBarrierZ = cur', spawnLog = lg' \<rparr>, c')))"

section \<open>Coins.js\<close>

text \<open>
  A coin of the global \<open>coins\<close> array: its position, its \<open>visible\<close> flag, and
  whether it is a child of the scene (\<open>scene.add\<close> makes it one, \<open>scene.remove\<close>
  ends it).
\<close>

record coin =
  cpos :: vector3
  visible :: bool
  inScene :: bool

text \<open>
  The position a recycled or collected coin is given: a random lane and a random
  distance ahead.  \<open>r1\<close> and \<open>r2\<close> are the two draws of \<open>Math.random()\<close>.
\<close>

definition recyclePosition :: "real \<Rightarrow> real \<Rightarrow> vector3" where
  "recyclePosition r1 r2 =
     \<lparr> px = (of_int \<lfloor>r1 * 3\<rfloor> - 1) * 4, py = 6 / 5, pz = - 50 - r2 * 50 \<rparr>"

text \<open>
  The success callback of the \<open>i\<close>-th load of \<open>initCoins\<close>, which the loader calls
  when the coin has loaded: the coin is placed, added to the scene and pushed on the
  array.
\<close>

definition coinLoaded :: "nat \<Rightarrow> real \<Rightarrow> real \<Rightarrow> coin list \<Rightarrow> coin list" where
  "coinLoaded i r1 r2 cs =
     cs @ [\<lparr> cpos = \<lparr> px = (of_int \<lfloor>r1 * 3\<rfloor> - 1) * 4, py = 6 / 5,
                      pz = - real i * 15 - r2 * 10 \<rparr>,
             visible = True, inScene = True \<rparr>]"

text \<open>
  The first half of the loop body of \<open>updateCoins\<close>: the coin moves forward, and
  once past \<open>z > 10\<close> it is given a new position and made visible.
\<close>

definition moveCoin :: "real \<Rightarrow> real \<Rightarrow> real \<Rightarrow> coin \<Rightarrow> coin" where
  "moveCoin r1 r2 spd cn =
     (let c1 = cn \<lparr> cpos := (cpos cn) \<lparr> pz := pz (cpos cn) + spd \<rparr> \<rparr>
      in if pz (cpos c1) > 10
         then c1 \<lparr> cpos := recyclePosition r1 r2, visible := True \<rparr>
         else c1)"

text \<open>
  \<open>coins.forEach\<close> of \<open>updateCoins\<close>.  The two bounding boxes come from
  \<open>Box3.setFromObject\<close>, which measures the rendered meshes: their intersection is
  the parameter \<open>hit\<close>, a function of the player's position and the coin.  The
  game state is the object the caller passes, whose \<open>coinCount\<close> the loop
  increments in place; \<open>updateUI\<close> acts on the caller's state \<open>c\<close>.  The draws
  \<open>rand i 0\<close>, \<open>rand i 1\<close> are those of a recycling of coin \<open>i\<close>, \<open>rand i 2\<close>,
  \<open>rand i 3\<close> those of its collection.
\<close>

fun forEachCoin ::
  "(nat \<Rightarrow> nat \<Rightarrow> real) \<Rightarrow> (vector3 \<Rightarrow> coin \<Rightarrow> bool) \<Rightarrow> vector3 \<Rightarrow> ('c \<Rightarrow> 'c) \<Rightarrow> nat \<Rightarrow> coin list
     \<Rightarrow> gameState \<Rightarrow> 'c \<Rightarrow> coin list \<times> gameState \<times> 'c" where
  "forEachCoin rand hit p updateUI i [] gs c = ([], gs, c)"
| "forEachCoin rand hit p updateUI i (cn # cs) gs c =
     (let c2 = moveCoin (rand i 0) (rand i 1) (speed gs * 2) cn;
          collected = hit p c2;
          c3 = (if collected then c2 \<lparr> cpos := recyclePosition (rand i 2) (rand i 3) \<rparr> else c2)
      in case forEachCoin rand hit p updateUI (Suc i) cs
                (if collected then gs \<lparr> coinCount := coinCount gs + 1 \<rparr> else gs)
                (if collected then updateUI c else c) of
           (cs', res) \<Rightarrow> (c3 # cs', res))"

text \<open>\<open>updateCoins(scene, player, gameState, updateUI, delta)\<close>.\<close>

definition updateCoins ::
  "(nat \<Rightarrow> nat \<Rightarrow> real) \<Rightarrow> (vector3 \<Rightarrow> coin \<Rightarrow> bool) \<Rightarrow> vector3 option \<Rightarrow> ('c \<Rightarrow> 'c)
     \<Rightarrow> coin list \<times> gameState \<times> 'c \<Rightarrow> coin list \<times> gameState \<times> 'c" where
  "updateCoins rand hit player updateUI s =
     (case player of
        None \<Rightarrow> s
      | Some p \<Rightarrow> forEachCoin rand hit p updateUI 0 (fst s) (fst (snd s)) (snd (snd s)))"

section \<open>Player.js\<close>

text \<open>
  \<open>playerUpdate(delta, gameState)\<close>, on the player's position.  Its second block
  is guarded by \<open>gameState.isJumping\<close>, a key that no game state of the canvas has,
  so only the lane movement runs.
\<close>

definition targetX :: "gameState \<Rightarrow> real" where
  "targetX gs = fl (of_int (currentLane gs) * laneDistance gs)"

text \<open>\<open>x += (t - x) * 0.1\<close>: the new value of \<open>x\<close>, three operations, each rounded.\<close>

definition approach :: "real \<Rightarrow> real \<Rightarrow> real" where
  "approach t x = fl (x + fl (fl (t - x) * fl (1 / 10)))"

definition playerUpdate :: "gameState \<Rightarrow> vector3 \<Rightarrow> vector3" where
  "playerUpdate gs p = p \<lparr> px := approach (targetX gs) (px p) \<rparr>"

section \<open>The game canvas\<close>

text \<open>
  The completion callbacks handed to the animation sequencer.  The jump passes none;
  the slide passes the closure that ends the slide.
\<close>

datatype callback = SlideDone

record request =
  animationName :: string
  duration :: nat
  onComplete :: "callback option"

text \<open>
  A pending \<open>setTimeout\<close> of \<open>processQueue\<close>: the time (in ms) from which it may
  fire, and what its closure captured, the request's callback and whether
  \<open>playAnimation\<close> was available.
\<close>

record timer =
  due :: nat
  completes :: "callback option"
  plays :: bool

text \<open>
  The state of the component: the React state \<open>gameState\<close> (a \<open>setGameState\<close> is
  applied where it is called, and \<open>gameStateRef\<close> is this same value), the refs, and
  the two module states.  \<open>player\<close> is \<open>playerRef.current\<close>, which is set together
  with \<open>playAnimationRef.current\<close>.  \<open>timers\<close> and the clock \<open>now\<close> stand for the
  browser's timer queue; \<open>played\<close> is the trace of the names passed to
  \<open>playAnimation\<close>.  \<open>barrierLoads\<close> and \<open>coinLoads\<close> stand for the loader: the
  number of barrier loads that have been requested and not yet answered, and, for
  each coin load in flight, the index \<open>i\<close> that its callback captured.
\<close>

record canvas =
  gameState :: gameState
  gameActive :: bool
  player :: "vector3 option"
  isJumping :: bool
  isRolling :: bool
  jumpVelocity :: real
  animationQueue :: "request list"
  isAnimating :: bool
  timers :: "timer list"
  now :: nat
  played :: "string list"
  obst :: obstacles
  coins :: "coin list"
  barrierLoads :: nat
  coinLoads :: "nat list"

text \<open>
  \<open>if (playAnimation) playAnimation(name)\<close>.  The function of \<open>Player.js\<close> behind
  the ref stops the current clip and plays the clip of that name, if the loaded model
  has one; the trace records the call.
\<close>

definition playAnimation :: "string \<Rightarrow> canvas \<Rightarrow> canvas" where
  "playAnimation name w = (if player w = None then w else w \<lparr> played := played w @ [name] \<rparr>)"

definition processQueue :: "canvas \<Rightarrow> canvas" where
  "processQueue w =
     (if isAnimating w then w
      else case animationQueue w of
        [] \<Rightarrow> w
      | r # rest \<Rightarrow>
          (let w1 = playAnimation (animationName r)
                      (w \<lparr> animationQueue := rest, isAnimating := True \<rparr>)
           in w1 \<lparr> timers := timers w1 @
                     [\<lparr> due = now w1 + duration r, completes = onComplete r,
                        plays = (player w1 \<noteq> None) \<rparr>] \<rparr>))"

definition playAndResetAnimation :: "request \<Rightarrow> canvas \<Rightarrow> canvas" where
  "playAndResetAnimation r w = processQueue (w \<lparr> animationQueue := animationQueue w @ [r] \<rparr>)"

text \<open>The body of a callback.\<close>

fun runCallback :: "callback \<Rightarrow> canvas \<Rightarrow> canvas" where
  "runCallback SlideDone w =
     w \<lparr> gameState := (gameState w) \<lparr> isSliding := False \<rparr>, isRolling := False \<rparr>"

text \<open>The closure that \<open>processQueue\<close> schedules, run for the timer \<open>t\<close>.\<close>

definition completion :: "timer \<Rightarrow> canvas \<Rightarrow> canvas" where
  "completion t w =
     (let w1 = (case completes t of None \<Rightarrow> w | Some cb \<Rightarrow> runCallback cb w);
          w2 = (if plays t then w1 \<lparr> played := played w1 @ [''run''] \<rparr> else w1)
      in processQueue (w2 \<lparr> isAnimating := False \<rparr>))"

text \<open>
  The browser fires the pending timer number \<open>i\<close>, which it may do once the timer is
  due; and time passes.
\<close>

definition timeout :: "nat \<Rightarrow> canvas \<Rightarrow> canvas" where
  "timeout i w =
     (if i < length (timers w) \<and> due (timers w ! i) \<le> now w
      then completion (timers w ! i) (w \<lparr> timers := take i (timers w) @ drop (Suc i) (timers w) \<rparr>)
      else w)"

definition elapse :: "nat \<Rightarrow> canvas \<Rightarrow> canvas" where
  "elapse ms w = w \<lparr> now := now w + ms \<rparr>"

text \<open>
  The four intents of the input handlers, and the two requests that the jump and the
  slide pass to the sequencer.
\<close>

definition laneRight :: "canvas \<Rightarrow> canvas" where
  "laneRight w = w \<lparr> gameState := (gameState w) \<lparr> currentLane := min (currentLane (gameState w) + 1) 1 \<rparr> \<rparr>"

definition laneLeft :: "canvas \<Rightarrow> canvas" where
  "laneLeft w = w \<lparr> gameState := (gameState w) \<lparr> currentLane := max (currentLane (gameState w) - 1) (- 1) \<rparr> \<rparr>"

definition jumpRequest :: request where
  "jumpRequest = \<lparr> animationName = ''jump'', duration = 800, onComplete = None \<rparr>"

definition rollRequest :: request where
  "rollRequest = \<lparr> animationName = ''roll'', duration = 1190, onComplete = Some SlideDone \<rparr>"

definition jump :: "canvas \<Rightarrow> canvas" where
  "jump w =
     (if \<not> isJumping w \<and> \<not> isRolling w
      then (playAndResetAnimation jumpRequest (w \<lparr> isJumping := True \<rparr>)) \<lparr> jumpVelocity := 8 \<rparr>
      else w)"

definition slide :: "canvas \<Rightarrow> canvas" where
  "slide w =
     (if \<not> isRolling w \<and> \<not> isJumping w
      then (let w1 = playAndResetAnimation rollRequest (w \<lparr> isRolling := True \<rparr>)
            in w1 \<lparr> gameState := (gameState w1) \<lparr> isSliding := True \<rparr> \<rparr>)
      else w)"

text \<open>\<open>onDrag\<close> of the gesture binding, with its movement and direction.\<close>

definition onDrag :: "real \<Rightarrow> real \<Rightarrow> real \<Rightarrow> real \<Rightarrow> canvas \<Rightarrow> canvas" where
  "onDrag mx my dx dy w =
     (let threshold = 10;
          w1 = (if \<bar>mx\<bar> > threshold \<and> \<bar>mx\<bar> > \<bar>my\<bar>
                then (if dx > 0 then laneRight w else if dx < 0 then laneLeft w else w)
                else w)
      in if \<bar>my\<bar> > threshold \<and> \<bar>my\<bar> > \<bar>mx\<bar>
         then (if dy < 0 then jump w1 else if dy > 0 then slide w1 else w1)
         else w1)"

text \<open>
  \<open>handleKeyDown\<close> and \<open>updatePlayer\<close> are closures of a render of the
  component: the \<open>gameState\<close> they read (\<open>gameState.active\<close>,
  \<open>gameState.gravity\<close>) is the constant of the render that created them, here the
  parameter \<open>seen\<close>, and not the current state.  The refs and \<open>setGameState\<close>
  with an updater function act on the current state \<open>w\<close>.
\<close>

definition handleKeyDown :: "gameState \<Rightarrow> string \<Rightarrow> canvas \<Rightarrow> canvas" where
  "handleKeyDown seen key w =
     (if \<not> active seen then w
      else if key = ''ArrowLeft'' then laneLeft w
      else if key = ''ArrowRight'' then laneRight w
      else if key = ''ArrowUp'' then jump w
      else if key = ''ArrowDown'' then slide w
      else w)"

text \<open>
  \<open>updatePlayer(delta)\<close>: the jump physics.  \<open>y += v * delta\<close> and
  \<open>v += gravity * delta\<close> are two operations each, a product and a sum, both
  rounded.
\<close>

definition updatePlayer :: "gameState \<Rightarrow> real \<Rightarrow> canvas \<Rightarrow> canvas" where
  "updatePlayer seen delta w =
     (case player w of
        None \<Rightarrow> w
      | Some p \<Rightarrow>
          if isJumping w
          then (let y1 = fl (py p + fl (jumpVelocity w * delta));
                    v1 = fl (jumpVelocity w + fl (gravity seen * delta))
                in if y1 \<le> 0
                   then playAnimation ''run''
                          (w \<lparr> player := Some (p \<lparr> py := 0 \<rparr>), isJumping := False,
                               jumpVelocity := 0 \<rparr>)
                   else w \<lparr> player := Some (p \<lparr> py := y1 \<rparr>), jumpVelocity := v1 \<rparr>)
          else w)"

text \<open>The collision callback that \<open>animate\<close> passes, and \<open>updateUI\<close>.\<close>

definition gameOver :: "canvas \<Rightarrow> canvas" where
  "gameOver w = w \<lparr> gameActive := False, gameState := (gameState w) \<lparr> active := False \<rparr> \<rparr>"

definition updateUI :: "canvas \<Rightarrow> canvas" where
  "updateUI w = w \<lparr> gameState := gameState w \<rparr>"

text \<open>
  One frame of the game loop, \<open>animate\<close>, with the frame's \<open>delta\<close> and draws,
  as the three groups of calls it makes: the two player updates, \<open>updateObstacles\<close>
  with the collision callback (only when the player exists), and \<open>updateCoins\<close>.
  \<open>updateEnvironment\<close> and the rendering move only scenery and are left out.
  The loop is created by the effect that runs once, after the first render, so the
  \<open>updatePlayer\<close> it calls is the closure of that render, in which \<open>gameState\<close>
  is \<open>defaultGameState\<close>; the other calls are given \<open>gameStateRef.current\<close>.
\<close>

definition movePlayer :: "real \<Rightarrow> canvas \<Rightarrow> canvas" where
  "movePlayer delta w =
     (let w1 = updatePlayer defaultGameState delta w
      in w1 \<lparr> player := map_option (playerUpdate (gameState w1)) (player w1) \<rparr>)"

definition obstaclesTick :: "(nat \<Rightarrow> real) \<Rightarrow> canvas \<Rightarrow> canvas" where
  "obstaclesTick rand w =
     (case player w of
        None \<Rightarrow> w
      | Some p \<Rightarrow>
          (case updateObstacles rand (Some p) (gameState w) gameOver (obst w, w) of
             (ob, w') \<Rightarrow> w' \<lparr> obst := ob \<rparr>))"

definition coinsTick :: "(nat \<Rightarrow> nat \<Rightarrow> real) \<Rightarrow> (vector3 \<Rightarrow> coin \<Rightarrow> bool) \<Rightarrow> canvas \<Rightarrow> canvas" where
  "coinsTick randc hit w =
     (case updateCoins randc hit (player w) updateUI (coins w, gameState w, w) of
        (cs, gs, w') \<Rightarrow> w' \<lparr> coins := cs, gameState := gs \<rparr>)"

definition animate ::
  "(nat \<Rightarrow> real) \<Rightarrow> (nat \<Rightarrow> nat \<Rightarrow> real) \<Rightarrow> (vector3 \<Rightarrow> coin \<Rightarrow> bool) \<Rightarrow> real \<Rightarrow> canvas \<Rightarrow> canvas" where
  "animate rand randc hit delta w =
     (if gameActive w
      then coinsTick randc hit (obstaclesTick rand (movePlayer delta w))
      else w)"

text \<open>
  \<open>initObstacles(scene)\<close> of \<open>Obstacles.js\<close> and \<open>initCoins(scene, maxCoins)\<close> of
  \<open>Coins.js\<close> only ask the loader for the models, one \<open>loader.load\<close> per barrier
  and per coin, and return; nothing is placed before a callback runs.
\<close>

definition initObstacles :: "canvas \<Rightarrow> canvas" where
  "initObstacles w = w \<lparr> barrierLoads := barrierLoads w + MAX_BARRIERS \<rparr>"

definition initCoins :: "nat \<Rightarrow> canvas \<Rightarrow> canvas" where
  "initCoins n w = w \<lparr> coinLoads := coinLoads w @ [0..<n] \<rparr>"

text \<open>
  The loader answers a load in flight: with the model, and the success callback runs,
  or with an error, which is logged.  Barrier loads are all alike; of the coin loads
  it is the \<open>k\<close>-th in flight that is answered.
\<close>

definition loadBarrier :: "real \<Rightarrow> canvas \<Rightarrow> canvas" where
  "loadBarrier r w =
     (if barrierLoads w = 0 then w
      else w \<lparr> obst := barrierLoaded r (obst w), barrierLoads := barrierLoads w - 1 \<rparr>)"

definition failBarrier :: "canvas \<Rightarrow> canvas" where
  "failBarrier w = w \<lparr> barrierLoads := barrierLoads w - 1 \<rparr>"

definition loadCoin :: "nat \<Rightarrow> real \<Rightarrow> real \<Rightarrow> canvas \<Rightarrow> canvas" where
  "loadCoin k r1 r2 w =
     (if k < length (coinLoads w)
      then w \<lparr> coins := coinLoaded (coinLoads w ! k) r1 r2 (coins w),
               coinLoads := take k (coinLoads w) @ drop (Suc k) (coinLoads w) \<rparr>
      else w)"

definition failCoin :: "nat \<Rightarrow> canvas \<Rightarrow> canvas" where
  "failCoin k w = w \<lparr> coinLoads := take k (coinLoads w) @ drop (Suc k) (coinLoads w) \<rparr>"

text \<open>
  \<open>restartGame\<close>, for a mounted canvas (the scene exists).  The audio and the
  disposal of the old meshes are left out.  The two arrays are emptied and new loads
  are requested; when the cursor is set from \<open>barriers.length\<close>, no callback has
  run yet.  Loads still in flight from before are not cancelled.
\<close>

definition restartGame :: "canvas \<Rightarrow> canvas" where
  "restartGame w =
     (let w1 = w \<lparr> gameActive := True, gameState := defaultGameState,
                   animationQueue := [], isAnimating := False \<rparr>;
          w2 = (case player w1 of
                  None \<Rightarrow> w1
                | Some p \<Rightarrow>
                    playAnimation ''run''
                      (w1 \<lparr> player := Some (p \<lparr> px := 0, py := 0, pz := 0 \<rparr>),
                            isJumping := False, isRolling := False, jumpVelocity := 0 \<rparr>));
          w3 = initObstacles
                 (w2 \<lparr> obst := (obst w2) \<lparr> barriers := [], lastBarrierZ := - 40 \<rparr>, coins := [] \<rparr>);
          w4 = w3 \<lparr> obst := (obst w3)
                   \<lparr> lastBarrierZ := - 40 - real (length (barriers (obst w3))) * MIN_BARRIER_SPACING \<rparr> \<rparr>
      in initCoins 5 w4)"

text \<open>
  The canvas when \<open>init\<close> has run, the player having loaded: the frame loop starts
  now, while the loads of the barriers and of the coins are in flight.
\<close>

definition mounted :: canvas where
  "mounted =
     (let w0 = \<lparr> gameState = defaultGameState, gameActive = True,
                  player = Some \<lparr> px = 0, py = 0, pz = 0 \<rparr>,
                  isJumping = False, isRolling = False, jumpVelocity = 0,
                  animationQueue = [], isAnimating = False, timers = [], now = 0,
                  played = [''run''], obst = initialObstacles, coins = [],
                  barrierLoads = 0, coinLoads = [] \<rparr>;
          w1 = initObstacles w0;
          w2 = w1 \<lparr> obst := (obst w1)
                   \<lparr> lastBarrierZ := - 40 - real (length (barriers (obst w1))) * MIN_BARRIER_SPACING \<rparr> \<rparr>
      in initCoins 5 w2)"

section \<open>Runs\<close>

text \<open>
  What can happen to a mounted canvas: a key is pressed, a drag is reported, a frame
  is drawn (with its draws, the renderer's coin test and its \<open>delta\<close>), the browser
  fires a pending timer, time passes, the game is restarted from the game-over
  screen, or the loader answers a load.  The key listener is registered by the effect
  that runs once, after the first render: it is the \<open>handleKeyDown\<close> of that render,
  in which \<open>gameState\<close> is \<open>defaultGameState\<close>.
\<close>

datatype event =
    KeyDown string
  | Drag real real real real
  | Frame "nat \<Rightarrow> real" "nat \<Rightarrow> nat \<Rightarrow> real" "vector3 \<Rightarrow> coin \<Rightarrow> bool" real
  | TimerFires nat
  | TimePasses nat
  | Restart
  | BarrierLoaded real
  | BarrierFailed
  | CoinLoaded nat real real
  | CoinFailed nat

fun step :: "event \<Rightarrow> canvas \<Rightarrow> canvas" where
  "step (KeyDown key) w = handleKeyDown defaultGameState key w"
| "step (Drag mx my dx dy) w = onDrag mx my dx dy w"
| "step (Frame rand randc hit delta) w = animate rand randc hit delta w"
| "step (TimerFires i) w = timeout i w"
| "step (TimePasses ms) w = elapse ms w"
| "step Restart w = restartGame w"
| "step (BarrierLoaded r) w = loadBarrier r w"
| "step BarrierFailed w = failBarrier w"
| "step (CoinLoaded k r1 r2) w = loadCoin k r1 r2 w"
| "step (CoinFailed k) w = failCoin k w"

definition run :: "event list \<Rightarrow> canvas \<Rightarrow> canvas" where
  "run es w = foldl (\<lambda>s e. step e s) w es"

text \<open>
  A sequence of calls of \<open>updateObstacles\<close>, one per frame, each with its draws, the
  player it is given and the game state it reads.
\<close>

definition obstacleFrames ::
  "((nat \<Rightarrow> real) \<times> vector3 option \<times> gameState) list \<Rightarrow> ('c \<Rightarrow> 'c) \<Rightarrow> obstacles \<times> 'c
     \<Rightarrow> obstacles \<times> 'c" where
  "obstacleFrames fs onCollision s =
     foldl (\<lambda>s (rand, player, gs). updateObstacles rand player gs onCollision s) s fs"

text \<open>What a pass of the barrier loop leaves in the module: barriers, cursor, history.\<close>

definition placements :: "'a \<times> 'b \<times> 'c \<times> 'd \<Rightarrow> 'a \<times> 'b \<times> 'c" where
  "placements r = (fst r, fst (snd r), fst (snd (snd r)))"

text \<open>The X coordinate that the player of lane \<open>l\<close> moves towards.\<close>

definition laneTarget :: "int \<Rightarrow> real" where
  "laneTarget l = targetX (defaultGameState \<lparr> currentLane := l \<rparr>)"

text \<open>
  The animation sequencer on its own: requests are enqueued, its timer fires, time
  passes.
\<close>

datatype seqEvent = Enqueue request | Completes nat | Waits nat

fun seqStep :: "seqEvent \<Rightarrow> canvas \<Rightarrow> canvas" where
  "seqStep (Enqueue r) w = playAndResetAnimation r w"
| "seqStep (Completes i) w = timeout i w"
| "seqStep (Waits ms) w = elapse ms w"

definition sequencer :: "seqEvent list \<Rightarrow> canvas \<Rightarrow> canvas" where
  "sequencer es w = foldl (\<lambda>s e. seqStep e s) w es"

text \<open>The names requested by a sequence of sequencer events, in order.\<close>

fun requested :: "seqEvent list \<Rightarrow> string list" where
  "requested [] = []"
| "requested (Enqueue r # es) = animationName r # requested es"
| "requested (e # es) = requested es"

text \<open>The trace of a list of transient animations, each followed by the run animation.\<close>

definition resumed :: "string list \<Rightarrow> string list" where
  "resumed names = concat (map (\<lambda>n. [n, ''run'']) names)"

text \<open>
  The scenario of a collision: the player runs in lane \<open>0\<close>, and one barrier stands in
  the middle lane slot, one unit ahead.
\<close>

definition collisionScene :: canvas where
  "collisionScene =
     \<lparr> gameState = defaultGameState, gameActive = True,
       player = Some \<lparr> px = 0, py = 0, pz = 0 \<rparr>,
       isJumping = False, isRolling = False, jumpVelocity = 0,
       animationQueue = [], isAnimating = False, timers = [], now = 0,
       played = [''run''],
       obst = \<lparr> barriers = [\<lparr> px = 1, py = 1 / 2, pz = - 1 \<rparr>], lastBarrierZ = - 65,
                spawnLog = [- 40] \<rparr>,
       coins = [], barrierLoads = 0, coinLoads = [] \<rparr>"

text \<open>
  The module of the obstacles once the \<open>MAX_BARRIERS\<close> loads that \<open>initObstacles\<close>
  requests have all succeeded and their callbacks have run, before any frame;
  \<open>rand i\<close> is the draw of the \<open>i\<close>-th callback.
\<close>

definition barriersLoaded :: "(nat \<Rightarrow> real) \<Rightarrow> obstacles \<Rightarrow> obstacles" where
  "barriersLoaded rand ob = foldl (\<lambda>s i. barrierLoaded (rand i) s) ob [0..<MAX_BARRIERS]"

text \<open>
  The frames of a game in which every draw is \<open>0\<close> (all barriers in the left lane),
  the player stands at the origin and the game state is the default one; and the
  obstacles after \<open>n\<close> such frames.
\<close>

definition demoFrames :: "nat \<Rightarrow> ((nat \<Rightarrow> real) \<times> vector3 option \<times> gameState) list" where
  "demoFrames n = replicate n (\<lambda>_. 0, Some \<lparr> px = 0, py = 0, pz = 0 \<rparr>, defaultGameState)"

definition demoRun :: "nat \<Rightarrow> obstacles" where
  "demoRun n = fst (obstacleFrames (demoFrames n) id (barriersLoaded (\<lambda>_. 0) initialObstacles, ()))"

text \<open>
  The invariant of the sequencer, for the canvas \<open>w0\<close> it started from, the names
  requested so far and those of them that have been started.
\<close>

definition seqInv :: "canvas \<Rightarrow> string list \<Rightarrow> string list \<Rightarrow> canvas \<Rightarrow> bool" where
  "seqInv w0 names started w =
     (names = started @ map animationName (animationQueue w) \<and>
      played w = played w0 @ (if isAnimating w then butlast (resumed started) else resumed started) \<and>
      length (timers w) = (if isAnimating w then 1 else 0) \<and>
      (if isAnimating w then started \<noteq> [] else animationQueue w = []) \<and>
      player w = player w0 \<and> player w0 \<noteq> None \<and> list_all plays (timers w))"

text \<open>A mounted canvas with an idle sequencer.\<close>

definition idleCanvas :: canvas where
  "idleCanvas = mounted"

text \<open>
  A restart while a slide's timer is pending.  On the canvas of the collision
  scenario: a swipe down starts a slide; 500 ms later a frame finds the collision
  and the game is over; 100 ms later the game is restarted; 100 ms later a second
  swipe down starts a new slide; and another 490 ms pass, which makes 1190 ms since
  the first swipe.
\<close>

definition restartScenario :: "event list" where
  "restartScenario =
     [Drag 0 20 0 1, TimePasses 500, Frame (\<lambda>_. 0) (\<lambda>_ _. 0) (\<lambda>_ _. False) (1 / 60),
      TimePasses 100, Restart, TimePasses 100, Drag 0 20 0 1, TimePasses 490]"








text \<open>
  The game state of a player who has moved to the lane on the right, and a position
  just short of that lane's target \<open>4\<close>: the fourth double below it.
\<close>

definition rightLane :: gameState where
  "rightLane = defaultGameState \<lparr> currentLane := 1 \<rparr>"

definition stalled :: vector3 where
  "stalled = \<lparr> px = 4 - 1 / 2 ^ 49, py = 0, pz = 0 \<rparr>"

section \<open>Rounding to the nearest double\<close>

lemma pow2_pos: "0 < pow2 k"
  by (simp add: pow2_def)

lemma pow2_add: "pow2 (a + b) = pow2 a * pow2 b"
  by (simp add: pow2_def powr_add)

lemma pow2_mono: "a \<le> b \<Longrightarrow> pow2 a \<le> pow2 b"
  by (simp add: pow2_def)

lemma pow2_less_cancel: "pow2 a < pow2 b \<Longrightarrow> a < b"
proof (rule ccontr)
  assume a: "pow2 a < pow2 b" "\<not> a < b"
  then have "pow2 b \<le> pow2 a" by (intro pow2_mono) simp
  with a show False by simp
qed

lemma pow2_nat: "0 \<le> k \<Longrightarrow> pow2 k = of_int (2 ^ nat k)"
  by (simp add: pow2_def powr_int)

lemma pow2_numeral: "pow2 (numeral n) = 2 ^ numeral n" "pow2 (- numeral n) = 1 / 2 ^ numeral n"
  "pow2 0 = 1" "pow2 1 = 2"
proof -
  show "pow2 (numeral n) = 2 ^ numeral n" "pow2 0 = 1" "pow2 1 = 2"
    by (simp_all add: pow2_def)
  have "pow2 (- numeral n) = inverse (2 powr numeral n)"
    by (simp add: pow2_def powr_minus)
  then show "pow2 (- numeral n) = 1 / 2 ^ numeral n"
    by (simp add: inverse_eq_divide)
qed

lemma abs_scale: "0 < u \<Longrightarrow> \<bar>a * u - y\<bar> = \<bar>a - y / u\<bar> * (u :: real)"
proof -
  assume u: "0 < u"
  then have "a * u - y = (a - y / u) * u" by (simp add: field_simps)
  then have "\<bar>a * u - y\<bar> = \<bar>a - y / u\<bar> * \<bar>u\<bar>" by (simp only: abs_mult)
  with u show ?thesis by simp
qed

lemma binade_ge: "- 1022 \<le> binade y"
  by (simp add: binade_def)

lemma binade_upper: "\<bar>y\<bar> < pow2 (binade y + 1)"
proof (cases "y = 0")
  case True
  then show ?thesis by (simp add: pow2_pos)
next
  case False
  then have p: "0 < \<bar>y\<bar>" by simp
  have "\<bar>y\<bar> < 2 powr of_int (\<lfloor>log 2 \<bar>y\<bar>\<rfloor> + 1)"
    using floor_log_eq_powr_iff [OF p, of 2 "\<lfloor>log 2 \<bar>y\<bar>\<rfloor>"] by simp
  also have "\<dots> \<le> pow2 (binade y + 1)"
    unfolding pow2_def using False by (intro powr_mono) (simp_all add: binade_def)
  finally show ?thesis .
qed

lemma binade_lower: "pow2 (- 1022) \<le> \<bar>y\<bar> \<Longrightarrow> pow2 (binade y) \<le> \<bar>y\<bar>"
proof -
  assume a: "pow2 (- 1022) \<le> \<bar>y\<bar>"
  then have p: "0 < \<bar>y\<bar>" using pow2_pos [of "- 1022"] by linarith
  then have n: "y \<noteq> 0" by auto
  have l: "2 powr of_int \<lfloor>log 2 \<bar>y\<bar>\<rfloor> \<le> \<bar>y\<bar>"
    using floor_log_eq_powr_iff [OF p, of 2 "\<lfloor>log 2 \<bar>y\<bar>\<rfloor>"] by simp
  show ?thesis
  proof (cases "- 1022 \<le> \<lfloor>log 2 \<bar>y\<bar>\<rfloor>")
    case True
    with n have "binade y = \<lfloor>log 2 \<bar>y\<bar>\<rfloor>" by (simp add: binade_def)
    with l show ?thesis by (simp add: pow2_def)
  next
    case False
    with n have "binade y = - 1022" by (simp add: binade_def)
    with a show ?thesis by simp
  qed
qed

lemma binade_eqI: "pow2 e \<le> \<bar>y\<bar> \<Longrightarrow> \<bar>y\<bar> < pow2 (e + 1) \<Longrightarrow> - 1022 \<le> e \<Longrightarrow> binade y = e"
proof -
  assume a: "pow2 e \<le> \<bar>y\<bar>" "\<bar>y\<bar> < pow2 (e + 1)" "- 1022 \<le> e"
  then have p: "0 < \<bar>y\<bar>" using pow2_pos [of e] by linarith
  then have n: "y \<noteq> 0" by auto
  have "\<lfloor>log 2 \<bar>y\<bar>\<rfloor> = e"
    using floor_log_eq_powr_iff [OF p, of 2 e] a by (simp add: pow2_def)
  with n a show ?thesis by (simp add: binade_def)
qed

lemma binade_subnormal: "\<bar>y\<bar> < pow2 (- 1022) \<Longrightarrow> binade y = - 1022"
proof (cases "y = 0")
  case True
  then show ?thesis by (simp add: binade_def)
next
  case False
  assume a: "\<bar>y\<bar> < pow2 (- 1022)"
  from False have p: "0 < \<bar>y\<bar>" by simp
  have "\<lfloor>log 2 \<bar>y\<bar>\<rfloor> < - 1022"
  proof (rule ccontr)
    assume "\<not> \<lfloor>log 2 \<bar>y\<bar>\<rfloor> < - 1022"
    then have "- 1022 \<le> \<lfloor>log 2 \<bar>y\<bar>\<rfloor>" by simp
    then have "pow2 (- 1022) \<le> pow2 \<lfloor>log 2 \<bar>y\<bar>\<rfloor>" by (rule pow2_mono)
    moreover have "pow2 \<lfloor>log 2 \<bar>y\<bar>\<rfloor> \<le> \<bar>y\<bar>"
      using floor_log_eq_powr_iff [OF p, of 2 "\<lfloor>log 2 \<bar>y\<bar>\<rfloor>"] by (simp add: pow2_def)
    ultimately show False using a by linarith
  qed
  with False show ?thesis by (simp add: binade_def)
qed

lemma binade_mono: "\<bar>x\<bar> \<le> \<bar>y\<bar> \<Longrightarrow> binade x \<le> binade y"
proof (cases "x = 0")
  case True
  then show ?thesis by (simp add: binade_def)
next
  case False
  assume a: "\<bar>x\<bar> \<le> \<bar>y\<bar>"
  with False have y: "y \<noteq> 0" by auto
  from False a have "log 2 \<bar>x\<bar> \<le> log 2 \<bar>y\<bar>" by simp
  then have "\<lfloor>log 2 \<bar>x\<bar>\<rfloor> \<le> \<lfloor>log 2 \<bar>y\<bar>\<rfloor>" by (rule floor_mono)
  with False y show ?thesis by (simp add: binade_def)
qed

lemma ulp_pos: "0 < ulp y"
  by (simp add: ulp_def pow2_pos)

lemma roundTiesToEven_near: "\<bar>of_int (roundTiesToEven r) - r\<bar> \<le> 1 / 2"
  unfolding roundTiesToEven_def Let_def by (auto; linarith)

lemma roundTiesToEven_int: "roundTiesToEven (of_int k) = k"
  by (simp add: roundTiesToEven_def)

lemma roundTiesToEven_nearest: "\<bar>of_int (roundTiesToEven r) - r\<bar> \<le> \<bar>of_int k - r\<bar>"
proof (rule ccontr)
  assume "\<not> \<bar>of_int (roundTiesToEven r) - r\<bar> \<le> \<bar>of_int k - r\<bar>"
  then have l: "\<bar>of_int k - r\<bar> < \<bar>of_int (roundTiesToEven r) - r\<bar>" by simp
  with roundTiesToEven_near [of r] have "\<bar>real_of_int k - of_int (roundTiesToEven r)\<bar> < 1"
    by linarith
  then have "\<bar>k - roundTiesToEven r\<bar> < 1" by linarith
  then have "k = roundTiesToEven r" by simp
  with l show False by simp
qed

lemma fl_zero: "fl 0 = 0"
  by (simp add: fl_def roundTiesToEven_def)

lemma fl_grid: "\<bar>fl y - y\<bar> \<le> \<bar>of_int k * ulp y - y\<bar>"
proof -
  have u: "0 < ulp y" by (rule ulp_pos)
  have "\<bar>fl y - y\<bar> = \<bar>of_int (roundTiesToEven (y / ulp y)) - y / ulp y\<bar> * ulp y"
    using u by (simp add: fl_def abs_scale)
  also have "\<dots> \<le> \<bar>of_int k - y / ulp y\<bar> * ulp y"
    using u roundTiesToEven_nearest [of "y / ulp y" k] by (intro mult_right_mono) simp_all
  also have "\<dots> = \<bar>of_int k * ulp y - y\<bar>"
    using u by (simp add: abs_scale)
  finally show ?thesis .
qed

lemma fl_half_ulp: "\<bar>fl y - y\<bar> \<le> ulp y / 2"
proof -
  have u: "0 < ulp y" by (rule ulp_pos)
  have "\<bar>fl y - y\<bar> = \<bar>of_int (roundTiesToEven (y / ulp y)) - y / ulp y\<bar> * ulp y"
    using u by (simp add: fl_def abs_scale)
  also have "\<dots> \<le> (1 / 2) * ulp y"
    using u roundTiesToEven_near [of "y / ulp y"] by (intro mult_right_mono) simp_all
  finally show ?thesis by simp
qed

lemma fl_multiple: "y = of_int k * ulp y \<Longrightarrow> fl y = y"
proof -
  assume a: "y = of_int k * ulp y"
  have u: "0 < ulp y" by (rule ulp_pos)
  from a u have "y / ulp y = of_int k" by (simp add: field_simps)
  then have "fl y = of_int k * ulp y" by (simp add: fl_def roundTiesToEven_int)
  with a show ?thesis by simp
qed


lemma ulp_ratio: "binade y \<le> binade d \<Longrightarrow> \<exists>n :: int. ulp d = of_int n * ulp y"
proof -
  assume a: "binade y \<le> binade d"
  have "ulp d = pow2 ((binade d - binade y) + (binade y - 52))"
    by (simp add: ulp_def)
  also have "\<dots> = pow2 (binade d - binade y) * ulp y"
    by (simp only: pow2_add ulp_def)
  also have "pow2 (binade d - binade y) = of_int (2 ^ nat (binade d - binade y))"
    using a by (intro pow2_nat) simp
  finally show ?thesis by blast
qed

lemma representable_grid:
  assumes "representable d" "binade y \<le> binade d"
  shows "\<exists>k :: int. d = of_int k * ulp y"
proof -
  obtain n :: int where n: "ulp d = of_int n * ulp y"
    using ulp_ratio [OF assms(2)] by blast
  from assms(1) have "d = of_int (roundTiesToEven (d / ulp d)) * ulp d"
    by (simp add: representable_def fl_def)
  then have "d = of_int (roundTiesToEven (d / ulp d) * n) * ulp y"
    by (simp add: n)
  then show ?thesis by blast
qed

lemma normal_binade: "- 1022 < binade y \<Longrightarrow> pow2 (binade y) \<le> \<bar>y\<bar>"
proof -
  assume a: "- 1022 < binade y"
  have "pow2 (- 1022) \<le> \<bar>y\<bar>"
  proof (rule ccontr)
    assume "\<not> pow2 (- 1022) \<le> \<bar>y\<bar>"
    then have "binade y = - 1022" by (intro binade_subnormal) simp
    with a show False by simp
  qed
  then show ?thesis by (rule binade_lower)
qed

lemma binade_grid: "pow2 (binade y) = of_int (2 ^ 52) * ulp y"
proof -
  have "pow2 (binade y) = pow2 (52 + (binade y - 52))" by simp
  also have "\<dots> = pow2 52 * ulp y" by (simp only: pow2_add ulp_def)
  finally show ?thesis by (simp add: pow2_numeral)
qed

lemma fl_nearest:
  assumes "representable d"
  shows "\<bar>fl y - y\<bar> \<le> \<bar>d - y\<bar>"
proof (cases "binade y \<le> binade d")
  case True
  then obtain k :: int where "d = of_int k * ulp y"
    using representable_grid [OF assms] by blast
  then show ?thesis using fl_grid [of y k] by simp
next
  case False
  then have l: "binade d < binade y" by simp
  with binade_ge [of d] have "- 1022 < binade y" by linarith
  then have B: "pow2 (binade y) \<le> \<bar>y\<bar>" by (rule normal_binade)
  have "\<bar>d\<bar> < pow2 (binade d + 1)" by (rule binade_upper)
  also have "\<dots> \<le> pow2 (binade y)" using l by (intro pow2_mono) simp
  finally have d: "\<bar>d\<bar> < pow2 (binade y)" .
  show ?thesis
  proof (cases "0 \<le> y")
    case True
    have "\<bar>fl y - y\<bar> \<le> \<bar>of_int (2 ^ 52) * ulp y - y\<bar>" by (rule fl_grid)
    also have "\<dots> = \<bar>pow2 (binade y) - y\<bar>" by (simp only: binade_grid)
    finally show ?thesis using True B d by linarith
  next
    case False
    have "\<bar>fl y - y\<bar> \<le> \<bar>of_int (- (2 ^ 52)) * ulp y - y\<bar>" by (rule fl_grid)
    also have "\<dots> = \<bar>- pow2 (binade y) - y\<bar>" by (simp only: binade_grid of_int_minus mult_minus_left)
    finally show ?thesis using False B d by linarith
  qed
qed

lemma representable_zero: "representable 0"
  by (simp add: representable_def fl_zero)

lemma representable_dyadic:
  assumes "\<bar>m\<bar> < 2 ^ 53" "- 1074 \<le> k"
  shows "representable (of_int m * pow2 k)"
proof (cases "m = 0")
  case True
  then show ?thesis by (simp add: representable_zero)
next
  case False
  define y where "y = of_int m * pow2 k"
  have y0: "y \<noteq> 0" using False pow2_pos [of k] by (simp add: y_def)
  then have p: "0 < \<bar>y\<bar>" by simp
  have "\<bar>y\<bar> = of_int \<bar>m\<bar> * pow2 k"
    using pow2_pos [of k] by (simp add: y_def abs_mult)
  also have "\<dots> < of_int (2 ^ 53) * pow2 k"
    using assms(1) pow2_pos [of k] by (intro mult_strict_right_mono) simp_all
  also have "\<dots> = pow2 (53 + k)"
    by (simp only: pow2_add) (simp add: pow2_numeral)
  finally have u: "\<bar>y\<bar> < pow2 (53 + k)" .
  have "2 powr of_int \<lfloor>log 2 \<bar>y\<bar>\<rfloor> \<le> \<bar>y\<bar>"
    using floor_log_eq_powr_iff [OF p, of 2 "\<lfloor>log 2 \<bar>y\<bar>\<rfloor>"] by simp
  then have "pow2 \<lfloor>log 2 \<bar>y\<bar>\<rfloor> \<le> \<bar>y\<bar>" by (simp only: pow2_def)
  with u have "pow2 \<lfloor>log 2 \<bar>y\<bar>\<rfloor> < pow2 (53 + k)" by linarith
  then have "\<lfloor>log 2 \<bar>y\<bar>\<rfloor> < 53 + k" by (rule pow2_less_cancel)
  with y0 assms(2) have b: "binade y \<le> k + 52" by (simp add: binade_def)
  have "pow2 k = pow2 ((k - (binade y - 52)) + (binade y - 52))" by simp
  also have "\<dots> = pow2 (k - (binade y - 52)) * ulp y" by (simp only: pow2_add ulp_def)
  also have "pow2 (k - (binade y - 52)) = of_int (2 ^ nat (k - (binade y - 52)))"
    using b by (intro pow2_nat) simp
  finally have "y = of_int (m * 2 ^ nat (k - (binade y - 52))) * ulp y"
    by (simp add: y_def)
  then have "fl y = y" by (rule fl_multiple)
  then show ?thesis by (simp add: representable_def y_def)
qed

lemma fl_mantissa: "\<bar>roundTiesToEven (y / ulp y)\<bar> \<le> 2 ^ 53"
proof -
  have u: "0 < ulp y" by (rule ulp_pos)
  have "\<bar>y\<bar> < pow2 (binade y + 1)" by (rule binade_upper)
  also have "\<dots> = pow2 (binade y) * pow2 1" by (rule pow2_add)
  also have "\<dots> = 2 * pow2 (binade y)" by (simp add: pow2_numeral)
  also have "\<dots> = of_int (2 ^ 53) * ulp y" by (simp add: binade_grid)
  finally have "\<bar>y\<bar> / ulp y < of_int (2 ^ 53)"
    using u by (simp add: field_simps)
  then have "\<bar>y / ulp y\<bar> < of_int (2 ^ 53)" using u by simp
  with roundTiesToEven_near [of "y / ulp y"]
  have "\<bar>real_of_int (roundTiesToEven (y / ulp y))\<bar> < of_int (2 ^ 53) + 1"
    by linarith
  then have "\<bar>roundTiesToEven (y / ulp y)\<bar> < 2 ^ 53 + 1" by linarith
  then show ?thesis by simp
qed

lemma representable_fl: "representable (fl y)"
proof -
  define n where "n = roundTiesToEven (y / ulp y)"
  have f: "fl y = of_int n * pow2 (binade y - 52)" by (simp add: fl_def n_def ulp_def)
  have k: "- 1074 \<le> binade y - 52" using binade_ge [of y] by simp
  have "\<bar>n\<bar> \<le> 2 ^ 53" unfolding n_def by (rule fl_mantissa)
  then consider "\<bar>n\<bar> < 2 ^ 53" | "n = 2 ^ 53" | "n = - (2 ^ 53)" by linarith
  then show ?thesis
  proof cases
    case 1
    then show ?thesis unfolding f using k by (rule representable_dyadic)
  next
    case 2
    have "pow2 (binade y + 1) = pow2 (53 + (binade y - 52))"
      by (rule arg_cong [where f = pow2]) linarith
    also have "\<dots> = of_int (2 ^ 53) * pow2 (binade y - 52)"
      by (simp only: pow2_add) (simp add: pow2_numeral)
    finally have "fl y = of_int 1 * pow2 (binade y + 1)" using 2 by (simp add: f)
    moreover have "representable (of_int 1 * pow2 (binade y + 1))"
      using binade_ge [of y] by (intro representable_dyadic) simp_all
    ultimately show ?thesis by simp
  next
    case 3
    have "pow2 (binade y + 1) = pow2 (53 + (binade y - 52))"
      by (rule arg_cong [where f = pow2]) linarith
    also have "\<dots> = of_int (2 ^ 53) * pow2 (binade y - 52)"
      by (simp only: pow2_add) (simp add: pow2_numeral)
    finally have "fl y = of_int (- 1) * pow2 (binade y + 1)" using 3 by (simp add: f)
    moreover have "representable (of_int (- 1) * pow2 (binade y + 1))"
      using binade_ge [of y] by (intro representable_dyadic) simp_all
    ultimately show ?thesis by simp
  qed
qed

lemma fl_rel_error: "\<bar>fl y - y\<bar> \<le> \<bar>y\<bar> / 2 ^ 53 + pow2 (- 1075)"
proof (cases "- 1022 < binade y")
  case True
  have "ulp y / 2 = pow2 (binade y) / 2 ^ 53"
    by (simp add: binade_grid)
  also have "\<dots> \<le> \<bar>y\<bar> / 2 ^ 53"
    using normal_binade [OF True] by (simp add: divide_right_mono)
  finally have "ulp y / 2 \<le> \<bar>y\<bar> / 2 ^ 53" .
  with fl_half_ulp [of y] pow2_pos [of "- 1075"] show ?thesis by linarith
next
  case False
  with binade_ge [of y] have "binade y = - 1022" by simp
  then have "ulp y / 2 = pow2 (- 1075)"
    by (simp add: ulp_def pow2_numeral)
  with fl_half_ulp [of y] show ?thesis by simp
qed

lemma fl_eval:
  assumes "pow2 e \<le> \<bar>y\<bar>" "\<bar>y\<bar> < pow2 (e + 1)" "- 1022 \<le> e"
  shows "fl y = of_int (roundTiesToEven (y / pow2 (e - 52))) * pow2 (e - 52)"
  using binade_eqI [OF assms] by (simp add: fl_def ulp_def)

lemma tenth: "fl (1 / 10) = 3602879701896397 / 36028797018963968"
  by (subst fl_eval [where e = "- 4"]) (simp_all add: pow2_numeral roundTiesToEven_def)


lemma fl_le: "representable d \<Longrightarrow> y \<le> d \<Longrightarrow> fl y \<le> d"
  using fl_nearest [of d y] by linarith

lemma fl_ge: "representable d \<Longrightarrow> d \<le> y \<Longrightarrow> d \<le> fl y"
  using fl_nearest [of d y] by linarith

lemma fl_nonneg: "0 \<le> y \<Longrightarrow> 0 \<le> fl y"
  by (rule fl_ge [OF representable_zero])

lemma fl_nonpos: "y \<le> 0 \<Longrightarrow> fl y \<le> 0"
  by (rule fl_le [OF representable_zero])

lemma fl_twice: "\<bar>fl y\<bar> \<le> 2 * \<bar>y\<bar>"
  using fl_nearest [OF representable_zero, of y] by linarith

lemma tenth_bounds: "0 < fl (1 / 10)" "fl (1 / 10) < 1 / 8" "fl (1 / 10) \<le> 9 / 80"
  "fl (1 / 10) - 1 / 10 = 1 / 180143985094819840"
  by (simp_all add: tenth)

lemma approach_increment:
  "\<bar>fl (fl (t - x) * fl (1 / 10))\<bar> \<le> \<bar>t - x\<bar> * (9 / 20)"
  "0 \<le> t - x \<Longrightarrow> 0 \<le> fl (fl (t - x) * fl (1 / 10))"
  "t - x \<le> 0 \<Longrightarrow> fl (fl (t - x) * fl (1 / 10)) \<le> 0"
proof -
  define c where "c = fl (1 / 10)"
  have c: "0 < c" "c < 1 / 8" "c \<le> 9 / 80" unfolding c_def by (rule tenth_bounds)+
  have "\<bar>fl (fl (t - x) * c)\<bar> \<le> 2 * \<bar>fl (t - x) * c\<bar>" by (rule fl_twice)
  also have "\<dots> = 2 * c * \<bar>fl (t - x)\<bar>" using c by (simp add: abs_mult)
  also have "\<dots> \<le> 2 * c * (2 * \<bar>t - x\<bar>)"
    using c fl_twice [of "t - x"] by (intro mult_left_mono) simp_all
  also have "\<dots> \<le> \<bar>t - x\<bar> * (9 / 20)"
  proof -
    have "4 * c \<le> 9 / 20" using c(3) by simp
    then have "(4 * c) * \<bar>t - x\<bar> \<le> (9 / 20) * \<bar>t - x\<bar>" by (intro mult_right_mono) simp_all
    then show ?thesis by simp
  qed
  finally show "\<bar>fl (fl (t - x) * fl (1 / 10))\<bar> \<le> \<bar>t - x\<bar> * (9 / 20)" by (simp add: c_def)
  show "0 \<le> fl (fl (t - x) * fl (1 / 10))" if "0 \<le> t - x"
    using that c fl_nonneg [of "t - x"] unfolding c_def [symmetric]
    by (intro fl_nonneg mult_nonneg_nonneg) simp_all
  show "fl (fl (t - x) * fl (1 / 10)) \<le> 0" if "t - x \<le> 0"
    using that c fl_nonpos [of "t - x"] unfolding c_def [symmetric]
    by (intro fl_nonpos mult_nonpos_nonneg) simp_all
qed

lemma approach_between:
  assumes "representable x" "representable t"
  shows "x < t \<Longrightarrow> x \<le> approach t x \<and> approach t x < t"
    and "t < x \<Longrightarrow> t < approach t x \<and> approach t x \<le> x"
    and "x = t \<Longrightarrow> approach t x = t"
proof -
  define p where "p = fl (fl (t - x) * fl (1 / 10))"
  have l: "approach t x = fl (x + p)" by (simp add: approach_def p_def)
  have n: "\<bar>fl (x + p) - (x + p)\<bar> \<le> \<bar>x - (x + p)\<bar>" using assms(1) by (rule fl_nearest)
  have a: "\<bar>p\<bar> \<le> \<bar>t - x\<bar> * (9 / 20)" unfolding p_def by (rule approach_increment)
  show "x \<le> approach t x \<and> approach t x < t" if "x < t"
  proof -
    have "0 \<le> p" unfolding p_def using that by (intro approach_increment) simp
    moreover from this n have "\<bar>fl (x + p) - (x + p)\<bar> \<le> p" by simp
    moreover from a that have "\<bar>p\<bar> \<le> (t - x) * (9 / 20)" by simp
    ultimately show ?thesis using that unfolding l by (intro conjI) argo+
  qed
  show "t < approach t x \<and> approach t x \<le> x" if "t < x"
  proof -
    have "p \<le> 0" unfolding p_def using that by (intro approach_increment) simp
    moreover from this n have "\<bar>fl (x + p) - (x + p)\<bar> \<le> - p" by simp
    moreover from a that have "\<bar>p\<bar> \<le> (x - t) * (9 / 20)" by simp
    ultimately show ?thesis using that unfolding l by (intro conjI) argo+
  qed
  show "approach t x = t" if "x = t"
  proof -
    from a that have "p = 0" by simp
    with assms that show ?thesis unfolding l by (simp add: representable_def)
  qed
qed

lemma approach_error:
  "\<bar>(approach t x - t) - (9 / 10) * (x - t)\<bar> \<le> (2 * \<bar>x\<bar> + \<bar>t\<bar>) / 2 ^ 53 + 3 * pow2 (- 1075)"
proof -
  define u :: real where "u = 1 / 2 ^ 53"
  define h where "h = pow2 (- 1075)"
  define c where "c = fl (1 / 10)"
  define D where "D = t - x"
  define d where "d = fl D"
  define q where "q = d * c"
  define p where "p = fl q"
  define y where "y = x + p"
  have c: "0 < c" "c < 1 / 8" "c - 1 / 10 = 1 / 180143985094819840"
    unfolding c_def by (rule tenth_bounds(1,2,4))+
  have h0: "0 < h" unfolding h_def by (rule pow2_pos)
  have u0: "0 < u" "u = 1 / 9007199254740992" unfolding u_def by simp_all
  have e1: "\<bar>d - D\<bar> \<le> \<bar>D\<bar> * u + h"
    unfolding d_def u_def h_def using fl_rel_error [of D] by simp
  have e2: "\<bar>p - q\<bar> \<le> \<bar>q\<bar> * u + h"
    unfolding p_def u_def h_def using fl_rel_error [of q] by simp
  have e3: "\<bar>approach t x - y\<bar> \<le> \<bar>y\<bar> * u + h"
    unfolding approach_def y_def p_def q_def d_def D_def c_def u_def h_def
    using fl_rel_error [of "x + fl (fl (t - x) * fl (1 / 10))"] by simp
  have d2: "\<bar>d\<bar> \<le> 2 * \<bar>D\<bar>" unfolding d_def by (rule fl_twice)
  have q1: "\<bar>q\<bar> = c * \<bar>d\<bar>" using c by (simp add: q_def abs_mult)
  have "c * \<bar>d\<bar> \<le> (1 / 8) * (2 * \<bar>D\<bar>)"
    using c d2 by (intro mult_mono) simp_all
  with q1 have q2: "\<bar>q\<bar> \<le> \<bar>D\<bar> / 4" by simp
  have p2: "\<bar>p\<bar> \<le> \<bar>D\<bar> / 2"
    unfolding p_def q_def d_def D_def c_def using approach_increment(1) [of t x] by linarith
  have y2: "\<bar>y\<bar> \<le> \<bar>x\<bar> + \<bar>D\<bar> / 2" unfolding y_def using p2 by linarith
  have D2: "\<bar>D\<bar> \<le> \<bar>x\<bar> + \<bar>t\<bar>" unfolding D_def by linarith
  have id: "(approach t x - t) - (9 / 10) * (x - t) =
        (approach t x - y) + (p - q) + (d - D) * c + D * (c - 1 / 10)"
    by (simp add: y_def q_def D_def field_simps)
  have t3: "\<bar>(d - D) * c\<bar> \<le> (\<bar>D\<bar> * u + h) * (1 / 8)"
    unfolding abs_mult using e1 c by (intro mult_mono) simp_all
  have t4: "\<bar>D * (c - 1 / 10)\<bar> \<le> \<bar>D\<bar> * (u / 20)"
    by (simp add: abs_mult c(3) u0(2))
  have m1: "\<bar>y\<bar> * u \<le> (\<bar>x\<bar> + \<bar>D\<bar> / 2) * u" using y2 u0 by (intro mult_right_mono) simp_all
  have m2: "\<bar>q\<bar> * u \<le> (\<bar>D\<bar> / 4) * u" using q2 u0 by (intro mult_right_mono) simp_all
  have "\<bar>(approach t x - t) - (9 / 10) * (x - t)\<bar> \<le>
        \<bar>approach t x - y\<bar> + \<bar>p - q\<bar> + \<bar>(d - D) * c\<bar> + \<bar>D * (c - 1 / 10)\<bar>"
    unfolding id by linarith
  also have "\<dots> \<le> (\<bar>x\<bar> + \<bar>D\<bar> / 2) * u + h + ((\<bar>D\<bar> / 4) * u + h) + (\<bar>D\<bar> * u + h) * (1 / 8) + \<bar>D\<bar> * (u / 20)"
    using e3 e2 t3 t4 m1 m2 by linarith
  also have "\<dots> = \<bar>x\<bar> * u + \<bar>D\<bar> * u * (37 / 40) + h * (17 / 8)"
    by (simp add: field_simps)
  also have "\<dots> \<le> \<bar>x\<bar> * u + (\<bar>x\<bar> + \<bar>t\<bar>) * u + h * 3"
  proof -
    have "\<bar>D\<bar> * u * (37 / 40) \<le> \<bar>D\<bar> * u * 1"
      using u0 by (intro mult_left_mono) simp_all
    also have "\<dots> \<le> (\<bar>x\<bar> + \<bar>t\<bar>) * u" using D2 u0 by simp
    finally show ?thesis using h0 by simp
  qed
  also have "\<dots> = (2 * \<bar>x\<bar> + \<bar>t\<bar>) / 2 ^ 53 + 3 * pow2 (- 1075)"
    by (simp add: u_def h_def algebra_simps)
  finally show ?thesis .
qed


lemma approach_step:
  assumes "representable x" "representable t"
  shows "sgn (t - approach t x) = sgn (t - x)" "\<bar>approach t x - t\<bar> \<le> \<bar>x - t\<bar>"
    "\<bar>approach t x\<bar> \<le> max \<bar>x\<bar> \<bar>t\<bar>"
proof -
  consider "x < t" | "t < x" | "x = t" by linarith
  then have "sgn (t - approach t x) = sgn (t - x) \<and> \<bar>approach t x - t\<bar> \<le> \<bar>x - t\<bar> \<and>
      \<bar>approach t x\<bar> \<le> max \<bar>x\<bar> \<bar>t\<bar>"
  proof cases
    case 1
    with approach_between(1) [OF assms] have b: "x \<le> approach t x" "approach t x < t" by simp_all
    from b 1 have "sgn (t - approach t x) = 1" "sgn (t - x) = 1" by simp_all
    moreover from b have "\<bar>approach t x - t\<bar> \<le> \<bar>x - t\<bar>" "\<bar>approach t x\<bar> \<le> max \<bar>x\<bar> \<bar>t\<bar>" by argo+
    ultimately show ?thesis by simp
  next
    case 2
    with approach_between(2) [OF assms] have b: "t < approach t x" "approach t x \<le> x" by simp_all
    from b 2 have "sgn (t - approach t x) = - 1" "sgn (t - x) = - 1" by simp_all
    moreover from b have "\<bar>approach t x - t\<bar> \<le> \<bar>x - t\<bar>" "\<bar>approach t x\<bar> \<le> max \<bar>x\<bar> \<bar>t\<bar>" by argo+
    ultimately show ?thesis by simp
  next
    case 3
    with approach_between(3) [OF assms] have "approach t x = t" by simp
    with 3 show ?thesis by simp
  qed
  then show "sgn (t - approach t x) = sgn (t - x)" "\<bar>approach t x - t\<bar> \<le> \<bar>x - t\<bar>"
    "\<bar>approach t x\<bar> \<le> max \<bar>x\<bar> \<bar>t\<bar>"
    by blast+
qed

lemma approach_representable: "representable (approach t x)"
  unfolding approach_def by (rule representable_fl)

lemma approach_iter:
  assumes "representable x" "representable t"
  shows "representable ((approach t ^^ N) x) \<and> sgn (t - (approach t ^^ N) x) = sgn (t - x) \<and>
         \<bar>(approach t ^^ N) x - t\<bar> \<le> \<bar>x - t\<bar> \<and> \<bar>(approach t ^^ N) x\<bar> \<le> max \<bar>x\<bar> \<bar>t\<bar>"
proof (induction N)
  case 0
  from assms show ?case by simp
next
  case (Suc N)
  define z where "z = (approach t ^^ N) x"
  from Suc have z: "representable z" "sgn (t - z) = sgn (t - x)" "\<bar>z - t\<bar> \<le> \<bar>x - t\<bar>"
    "\<bar>z\<bar> \<le> max \<bar>x\<bar> \<bar>t\<bar>"
    by (simp_all add: z_def)
  note b = approach_step [OF z(1) assms(2)]
  have s: "(approach t ^^ Suc N) x = approach t z"
    by (simp add: z_def)
  have "sgn (t - approach t z) = sgn (t - x)" using b(1) z(2) by simp
  moreover have "\<bar>approach t z - t\<bar> \<le> \<bar>x - t\<bar>" using b(2) z(3) by linarith
  moreover have "\<bar>approach t z\<bar> \<le> max \<bar>x\<bar> \<bar>t\<bar>" using b(3) z(4) by linarith
  ultimately show ?case
    unfolding s using approach_representable [of t z] by blast
qed

lemma approach_decay:
  assumes "representable x" "representable t"
  shows "\<bar>((approach t ^^ N) x - t) - (x - t) * (9 / 10) ^ N\<bar> \<le>
           10 * (1 - (9 / 10) ^ N) * (3 * max \<bar>x\<bar> \<bar>t\<bar> / 2 ^ 53 + 3 * pow2 (- 1075))"
proof (induction N)
  case 0
  show ?case by simp
next
  case (Suc N)
  define z where "z = (approach t ^^ N) x"
  define E where "E = 3 * max \<bar>x\<bar> \<bar>t\<bar> / 2 ^ 53 + 3 * pow2 (- 1075)"
  define r :: real where "r = (9 / 10) ^ N"
  from Suc have ih: "\<bar>(z - t) - (x - t) * r\<bar> \<le> 10 * (1 - r) * E"
    by (simp only: z_def E_def r_def)
  have zb: "\<bar>z\<bar> \<le> max \<bar>x\<bar> \<bar>t\<bar>"
    using approach_iter [OF assms, of N] by (simp add: z_def)
  then have "2 * \<bar>z\<bar> + \<bar>t\<bar> \<le> 3 * max \<bar>x\<bar> \<bar>t\<bar>" by linarith
  then have "(2 * \<bar>z\<bar> + \<bar>t\<bar>) / 2 ^ 53 \<le> 3 * max \<bar>x\<bar> \<bar>t\<bar> / 2 ^ 53"
    by (rule divide_right_mono) simp
  with approach_error [of t z] have e: "\<bar>(approach t z - t) - (9 / 10) * (z - t)\<bar> \<le> E"
    unfolding E_def by linarith
  have id: "(approach t z - t) - (x - t) * ((9 / 10) * r) =
        ((approach t z - t) - (9 / 10) * (z - t)) + (9 / 10) * ((z - t) - (x - t) * r)"
    by (simp add: field_simps)
  have tri: "\<bar>a + (9 / 10) * b\<bar> \<le> E + (9 / 10) * K" if "\<bar>a\<bar> \<le> E" "\<bar>b\<bar> \<le> K" for a b K :: real
    using that by argo
  have "\<bar>(approach t z - t) - (x - t) * ((9 / 10) * r)\<bar> \<le> E + (9 / 10) * (10 * (1 - r) * E)"
    unfolding id using e ih by (rule tri)
  also have "\<dots> = 10 * (1 - (9 / 10) * r) * E"
    by (simp add: algebra_simps)
  finally have "\<bar>(approach t z - t) - (x - t) * ((9 / 10) * r)\<bar> \<le> 10 * (1 - (9 / 10) * r) * E" .
  moreover have "(approach t ^^ Suc N) x = approach t z" by (simp add: z_def)
  moreover have "(9 / 10 :: real) ^ Suc N = (9 / 10) * r" by (simp add: r_def)
  ultimately show ?case
    by (simp only: E_def)
qed

lemma fl_lanes: "fl 4 = 4" "fl (- 4) = - 4"
  using representable_dyadic [of 1 2] representable_dyadic [of "- 1" 2]
  by (simp_all add: representable_def pow2_numeral)

lemma approach_rest: "approach (fl 0) 0 = 0"
  by (simp add: approach_def fl_zero)

section \<open>The loops of the two modules\<close>

lemma forEachBarrier_Cons:
  assumes "moveBarrier (rand i) spd cur b = (b', cur', r)"
  shows "forEachBarrier rand spd p cb i (b # bs) cur lg c =
         (b' # fst (forEachBarrier rand spd p cb (Suc i) bs cur'
                      (if r then lg @ [pz b'] else lg) (if collides p b' then cb c else c)),
          snd (forEachBarrier rand spd p cb (Suc i) bs cur'
                      (if r then lg @ [pz b'] else lg) (if collides p b' then cb c else c)))"
  using assms by (simp add: case_prod_beta)

lemma forEachBarrier_ctx:
  "snd (snd (snd (forEachBarrier rand spd p cb i bs cur lg c))) =
     (cb ^^ length (filter (collides p) (fst (forEachBarrier rand spd p cb i bs cur lg c)))) c"
proof (induction bs arbitrary: i cur lg c)
  case Nil
  show ?case by simp
next
  case (Cons b bs)
  show ?case
    by (simp add: Cons.IH funpow_swap1 case_prod_beta)
qed

lemma forEachBarrier_length:
  "length (fst (forEachBarrier rand spd p cb i bs cur lg c)) = length bs"
  by (induction bs arbitrary: i cur lg c) (simp_all add: case_prod_beta)

lemma forEachBarrier_indep:
  "placements (forEachBarrier rand spd p cb i bs cur lg c) =
   placements (forEachBarrier rand spd p' cb' i bs cur lg c')"
proof (induction bs arbitrary: i cur lg c c')
  case Nil
  show ?case by (simp add: placements_def)
next
  case (Cons b bs)
  obtain b' cur' r where m: "moveBarrier (rand i) spd cur b = (b', cur', r)"
    by (cases "moveBarrier (rand i) spd cur b") auto
  let ?lg = "if r then lg @ [pz b'] else lg"
  have ih: "placements (forEachBarrier rand spd p cb (Suc i) bs cur' ?lg (if collides p b' then cb c else c)) =
        placements (forEachBarrier rand spd p' cb' (Suc i) bs cur' ?lg (if collides p' b' then cb' c' else c'))"
    by (rule Cons.IH)
  then show ?case
    by (simp add: forEachBarrier_Cons [where rand = rand and i = i, OF m] placements_def del: forEachBarrier.simps)
qed

lemma forEachCoin_length:
  "length (fst (forEachCoin rand hit p ui i cs gs c)) = length cs"
  by (induction cs arbitrary: i gs c) (simp_all add: case_prod_beta Let_def)

lemma forEachCoin_state:
  "\<exists>k. fst (snd (forEachCoin rand hit p ui i cs gs c)) = gs \<lparr> coinCount := coinCount gs + int k \<rparr> \<and>
       snd (snd (forEachCoin rand hit p ui i cs gs c)) = (ui ^^ k) c"
proof (induction cs arbitrary: i gs c)
  case Nil
  show ?case by (rule exI [of _ 0]) simp
next
  case (Cons cn cs)
  show ?case
  proof (cases "hit p (moveCoin (rand i 0) (rand i 1) (speed gs * 2) cn)")
    case True
    obtain k where "fst (snd (forEachCoin rand hit p ui (Suc i) cs (gs \<lparr> coinCount := coinCount gs + 1 \<rparr>) (ui c))) =
        (gs \<lparr> coinCount := coinCount gs + 1 \<rparr>) \<lparr> coinCount := coinCount (gs \<lparr> coinCount := coinCount gs + 1 \<rparr>) + int k \<rparr>"
      "snd (snd (forEachCoin rand hit p ui (Suc i) cs (gs \<lparr> coinCount := coinCount gs + 1 \<rparr>) (ui c))) = (ui ^^ k) (ui c)"
      using Cons.IH by blast
    with True show ?thesis
      by (intro exI [of _ "Suc k"]) (simp add: case_prod_beta Let_def funpow_swap1)
  next
    case False
    obtain k where "fst (snd (forEachCoin rand hit p ui (Suc i) cs gs c)) = gs \<lparr> coinCount := coinCount gs + int k \<rparr>"
      "snd (snd (forEachCoin rand hit p ui (Suc i) cs gs c)) = (ui ^^ k) c"
      using Cons.IH by blast
    with False show ?thesis
      by (intro exI [of _ k]) (simp add: case_prod_beta Let_def)
  qed
qed

lemma updateUI_id: "updateUI w = w"
  by (simp add: updateUI_def)

lemma updateUI_funpow: "(updateUI ^^ k) w = w"
  by (induction k) (simp_all add: updateUI_id)

lemma gameOver_funpow: "(gameOver ^^ k) w = (if k = 0 then w else gameOver w)"
proof (induction k)
  case 0
  show ?case by simp
next
  case (Suc k)
  have "gameOver (gameOver w) = gameOver w" by (simp add: gameOver_def)
  with Suc show ?case by simp
qed


lemma updateObstacles_ctx:
  "snd (updateObstacles rand (Some p) gs cb (ob, c)) =
     (cb ^^ length (filter (collides p) (barriers (fst (updateObstacles rand (Some p) gs cb (ob, c)))))) c"
  using forEachBarrier_ctx [of rand "speed gs * 2" p cb 0 "barriers ob" "lastBarrierZ ob" "spawnLog ob" c]
  by (simp add: updateObstacles_def case_prod_beta)

lemma updatePlayer_fields:
  "gameState (updatePlayer gs d w) = gameState w" "gameActive (updatePlayer gs d w) = gameActive w"
  "coins (updatePlayer gs d w) = coins w" "obst (updatePlayer gs d w) = obst w"
  "coinLoads (updatePlayer gs d w) = coinLoads w"
  by (simp_all add: updatePlayer_def playAnimation_def Let_def split: option.splits)

lemma movePlayer_fields:
  "gameState (movePlayer d w) = gameState w" "gameActive (movePlayer d w) = gameActive w"
  "coins (movePlayer d w) = coins w" "obst (movePlayer d w) = obst w"
  "coinLoads (movePlayer d w) = coinLoads w"
  by (simp_all add: movePlayer_def Let_def updatePlayer_fields)

lemma obstaclesTick_shape:
  "\<exists>ob k. obstaclesTick rand w = ((gameOver ^^ k) w) \<lparr> obst := ob \<rparr> \<and>
     length (barriers ob) = length (barriers (obst w)) \<and>
     (case player w of None \<Rightarrow> k = 0 \<and> ob = obst w
      | Some p \<Rightarrow> k = length (filter (collides p) (barriers ob)) \<and>
          ob = fst (updateObstacles rand (Some p) (gameState w) gameOver (obst w, w)))"
proof (cases "player w")
  case None
  then show ?thesis
    by (intro exI [of _ "obst w"] exI [of _ 0]) (simp add: obstaclesTick_def)
next
  case (Some p)
  define r where "r = updateObstacles rand (Some p) (gameState w) gameOver (obst w, w)"
  have s: "snd r = (gameOver ^^ length (filter (collides p) (barriers (fst r)))) w"
    unfolding r_def by (rule updateObstacles_ctx)
  have l: "length (barriers (fst r)) = length (barriers (obst w))"
    by (simp add: r_def updateObstacles_def case_prod_beta forEachBarrier_length)
  have "obstaclesTick rand w = (snd r) \<lparr> obst := fst r \<rparr>"
    using Some by (simp add: obstaclesTick_def r_def case_prod_beta)
  with s l Some show ?thesis
    by (intro exI [of _ "fst r"] exI [of _ "length (filter (collides p) (barriers (fst r)))"])
       (simp add: r_def)
qed

lemma coinsTick_shape:
  "\<exists>cs n. coinsTick randc hit w =
        w \<lparr> coins := cs, gameState := (gameState w) \<lparr> coinCount := coinCount (gameState w) + int n \<rparr> \<rparr> \<and>
     length cs = length (coins w)"
proof (cases "player w")
  case None
  then show ?thesis
    by (intro exI [of _ "coins w"] exI [of _ 0]) (simp add: coinsTick_def updateCoins_def)
next
  case (Some p)
  define fc where "fc = forEachCoin randc hit p updateUI 0 (coins w) (gameState w) w"
  have "\<exists>n. fst (snd fc) = (gameState w) \<lparr> coinCount := coinCount (gameState w) + int n \<rparr> \<and>
       snd (snd fc) = (updateUI ^^ n) w"
    unfolding fc_def by (rule forEachCoin_state)
  then obtain n where n: "fst (snd fc) = (gameState w) \<lparr> coinCount := coinCount (gameState w) + int n \<rparr>"
      "snd (snd fc) = (updateUI ^^ n) w"
    by (elim exE conjE)
  have l: "length (fst fc) = length (coins w)"
    unfolding fc_def by (rule forEachCoin_length)
  have "coinsTick randc hit w = (snd (snd fc)) \<lparr> coins := fst fc, gameState := fst (snd fc) \<rparr>"
    using Some by (simp add: coinsTick_def updateCoins_def fc_def case_prod_beta)
  with n l show ?thesis
    by (intro exI [of _ "fst fc"] exI [of _ n]) (simp add: updateUI_funpow)
qed


lemma processQueue_fields:
  "gameState (processQueue w) = gameState w" "coins (processQueue w) = coins w"
  "coinLoads (processQueue w) = coinLoads w"
  by (simp_all add: processQueue_def playAnimation_def Let_def split: list.splits)

lemma playAndResetAnimation_fields:
  "gameState (playAndResetAnimation r w) = gameState w" "coins (playAndResetAnimation r w) = coins w"
  "coinLoads (playAndResetAnimation r w) = coinLoads w"
  by (simp_all add: playAndResetAnimation_def processQueue_fields)

lemma runCallback_fields:
  "currentLane (gameState (runCallback cb w)) = currentLane (gameState w)"
  "coins (runCallback cb w) = coins w" "coinLoads (runCallback cb w) = coinLoads w"
  by (cases cb, simp)+

lemma timeout_fields:
  "currentLane (gameState (timeout i w)) = currentLane (gameState w)" "coins (timeout i w) = coins w"
  "coinLoads (timeout i w) = coinLoads w"
  by (simp_all add: timeout_def completion_def processQueue_fields runCallback_fields Let_def split: option.splits)

lemma jump_fields:
  "gameState (jump w) = gameState w" "coins (jump w) = coins w" "coinLoads (jump w) = coinLoads w"
  by (simp_all add: jump_def playAndResetAnimation_fields)

lemma slide_fields:
  "currentLane (gameState (slide w)) = currentLane (gameState w)" "coins (slide w) = coins w"
  "coinLoads (slide w) = coinLoads w"
  by (simp_all add: slide_def playAndResetAnimation_fields Let_def)

lemma lane_intents:
  "currentLane (gameState (laneLeft w)) = max (currentLane (gameState w) - 1) (- 1)"
  "currentLane (gameState (laneRight w)) = min (currentLane (gameState w) + 1) 1"
  "coins (laneLeft w) = coins w" "coins (laneRight w) = coins w"
  "coinLoads (laneLeft w) = coinLoads w" "coinLoads (laneRight w) = coinLoads w"
  by (simp_all add: laneLeft_def laneRight_def)

lemma onDrag_lane:
  "currentLane (gameState (onDrag mx my dx dy w)) =
     (if \<bar>mx\<bar> > 10 \<and> \<bar>mx\<bar> > \<bar>my\<bar>
      then (if dx > 0 then min (currentLane (gameState w) + 1) 1
            else if dx < 0 then max (currentLane (gameState w) - 1) (- 1)
            else currentLane (gameState w))
      else currentLane (gameState w))"
  by (simp add: onDrag_def Let_def jump_fields slide_fields lane_intents)


lemma handleKeyDown_lane:
  "currentLane (gameState (handleKeyDown seen key w)) =
     (if active seen \<and> key = ''ArrowLeft'' then max (currentLane (gameState w) - 1) (- 1)
      else if active seen \<and> key = ''ArrowRight'' then min (currentLane (gameState w) + 1) 1
      else currentLane (gameState w))"
  by (simp add: handleKeyDown_def jump_fields slide_fields lane_intents)


lemma animate_shape:
  assumes "gameActive w"
  shows "\<exists>ob k cs n. animate rand randc hit delta w =
           ((gameOver ^^ k) (movePlayer delta w))
             \<lparr> obst := ob, coins := cs,
               gameState := (gameState ((gameOver ^^ k) (movePlayer delta w)))
                 \<lparr> coinCount := coinCount (gameState ((gameOver ^^ k) (movePlayer delta w))) + int n \<rparr> \<rparr> \<and>
           cs = fst (updateCoins randc hit (player (movePlayer delta w)) updateUI
                       (coins w, gameState ((gameOver ^^ k) (movePlayer delta w)),
                        ((gameOver ^^ k) (movePlayer delta w)) \<lparr> obst := ob \<rparr>))"
proof -
  define w2 where "w2 = movePlayer delta w"
  obtain ob k where o: "obstaclesTick rand w2 = ((gameOver ^^ k) w2) \<lparr> obst := ob \<rparr>"
    using obstaclesTick_shape [of rand w2] by (elim exE conjE)
  define w3 where "w3 = (gameOver ^^ k) w2"
  have f: "coins w3 = coins w" "player w3 = player w2"
    by (simp_all add: w3_def w2_def gameOver_funpow gameOver_def movePlayer_fields)
  obtain cs n where c: "coinsTick randc hit (w3 \<lparr> obst := ob \<rparr>) =
      (w3 \<lparr> obst := ob \<rparr>)
        \<lparr> coins := cs, gameState := (gameState (w3 \<lparr> obst := ob \<rparr>))
             \<lparr> coinCount := coinCount (gameState (w3 \<lparr> obst := ob \<rparr>)) + int n \<rparr> \<rparr>"
    using coinsTick_shape [of randc hit "w3 \<lparr> obst := ob \<rparr>"] by (elim exE conjE)
  have cs: "coins (coinsTick randc hit (w3 \<lparr> obst := ob \<rparr>)) =
      fst (updateCoins randc hit (player w2) updateUI (coins w, gameState w3, w3 \<lparr> obst := ob \<rparr>))"
    by (simp add: coinsTick_def case_prod_beta f)
  have "animate rand randc hit delta w = coinsTick randc hit (w3 \<lparr> obst := ob \<rparr>)"
    using assms by (simp add: animate_def w2_def [symmetric] o w3_def)
  with c cs show ?thesis
    unfolding w3_def w2_def
    by (intro exI [of _ ob] exI [of _ k] exI [of _ cs] exI [of _ n]) simp
qed

lemma animate_lane: "currentLane (gameState (animate rand randc hit delta w)) = currentLane (gameState w)"
proof (cases "gameActive w")
  case False
  then show ?thesis by (simp add: animate_def)
next
  case True
  obtain ob k cs n where a: "animate rand randc hit delta w =
           ((gameOver ^^ k) (movePlayer delta w))
             \<lparr> obst := ob, coins := cs,
               gameState := (gameState ((gameOver ^^ k) (movePlayer delta w)))
                 \<lparr> coinCount := coinCount (gameState ((gameOver ^^ k) (movePlayer delta w))) + int n \<rparr> \<rparr>"
    using animate_shape [OF True, of rand randc hit delta] by (elim exE conjE)
  show ?thesis
    by (simp add: a) (simp add: gameOver_funpow gameOver_def movePlayer_fields)
qed





lemma restartGame_fields:
  "currentLane (gameState (restartGame w)) = 0"
  by (simp add: restartGame_def Let_def playAnimation_def defaultGameState_def initObstacles_def
      initCoins_def split: option.splits)

lemma loads_fields:
  "gameState (loadBarrier r w) = gameState w" "gameState (failBarrier w) = gameState w"
  "gameState (loadCoin k r1 r2 w) = gameState w" "gameState (failCoin k w) = gameState w"
  "coins (loadBarrier r w) = coins w" "coins (failBarrier w) = coins w"
  "coinLoads (loadBarrier r w) = coinLoads w" "coinLoads (failBarrier w) = coinLoads w"
  by (simp_all add: loadBarrier_def failBarrier_def loadCoin_def failCoin_def)

lemma step_lane:
  "currentLane (gameState w) \<in> {- 1, 0, 1} \<Longrightarrow> currentLane (gameState (step e w)) \<in> {- 1, 0, 1}"
  by (cases e)
     (auto simp: handleKeyDown_lane onDrag_lane animate_lane timeout_fields elapse_def restartGame_fields
        loads_fields)

lemma run_lane:
  "currentLane (gameState w) \<in> {- 1, 0, 1} \<Longrightarrow> currentLane (gameState (run es w)) \<in> {- 1, 0, 1}"
  unfolding run_def
  by (induction es arbitrary: w) (simp_all add: step_lane del: insert_iff)

lemma mounted_fields:
  "currentLane (gameState mounted) = 0" "coins mounted = []" "coinLoads mounted = [0, 1, 2, 3, 4]"
  by (simp_all add: mounted_def Let_def defaultGameState_def initObstacles_def initCoins_def upt_rec)

section \<open>Lane movement\<close>

lemma stall_steps:
  "fl (4 - (4 - 1 / 2 ^ 49)) = 1 / 2 ^ 49"
  "fl (1 / 2 ^ 49 * (3602879701896397 / 36028797018963968)) = 3602879701896397 / 2 ^ 104"
  "fl (4 - 1 / 2 ^ 49 + 3602879701896397 / 2 ^ 104) = 4 - 1 / 2 ^ 49"
proof -
  show "fl (4 - (4 - 1 / 2 ^ 49)) = 1 / 2 ^ 49"
    using representable_dyadic [of 1 "- 49"] by (simp add: representable_def pow2_numeral)
  show "fl (1 / 2 ^ 49 * (3602879701896397 / 36028797018963968)) = 3602879701896397 / 2 ^ 104"
    using representable_dyadic [of 3602879701896397 "- 104"] by (simp add: representable_def pow2_numeral)
  show "fl (4 - 1 / 2 ^ 49 + 3602879701896397 / 2 ^ 104) = 4 - 1 / 2 ^ 49"
    by (subst fl_eval [where e = 1]) (simp_all add: pow2_numeral roundTiesToEven_def)
qed

lemma rightLane_target: "targetX rightLane = 4"
  by (simp add: targetX_def rightLane_def defaultGameState_def fl_lanes)

lemma stalled_approach: "approach 4 (4 - 1 / 2 ^ 49) = 4 - 1 / 2 ^ 49"
  by (simp only: approach_def tenth stall_steps)

lemma stalled_fixed: "playerUpdate rightLane stalled = stalled"
proof -
  have "playerUpdate rightLane stalled = stalled \<lparr> px := approach 4 (px stalled) \<rparr>"
    by (simp only: playerUpdate_def rightLane_target)
  also have "px stalled = 4 - 1 / 2 ^ 49" by (simp add: stalled_def)
  also have "stalled \<lparr> px := approach 4 (4 - 1 / 2 ^ 49) \<rparr> = stalled"
    by (simp only: stalled_approach) (simp add: stalled_def)
  finally show ?thesis .
qed

lemma first_steps:
  "fl (4 - 0) = 4" "fl (4 * (3602879701896397 / 36028797018963968)) = 3602879701896397 / 2 ^ 53"
  "fl (0 + 3602879701896397 / 2 ^ 53) = 3602879701896397 / 2 ^ 53"
  using representable_dyadic [of 3602879701896397 "- 53"]
  by (simp_all add: representable_def pow2_numeral fl_lanes)

lemma first_tick:
  "px (playerUpdate rightLane \<lparr> px = 0, py = 0, pz = 0 \<rparr>) = 3602879701896397 / 2 ^ 53"
proof -
  have "approach 4 0 = 3602879701896397 / 2 ^ 53"
    by (simp only: approach_def tenth first_steps)
  then show ?thesis
    by (simp add: playerUpdate_def rightLane_target)
qed


lemma playerUpdate_funpow: "px ((playerUpdate gs ^^ N) p) = (approach (targetX gs) ^^ N) (px p)"
  by (induction N) (simp_all add: playerUpdate_def)

lemma fl_bounded:
  assumes "\<bar>y\<bar> \<le> pow2 k" "- 1074 \<le> k"
  shows "\<bar>fl y\<bar> \<le> pow2 k"
proof -
  have "representable (of_int 1 * pow2 k)" "representable (of_int (- 1) * pow2 k)"
    using assms(2) by (intro representable_dyadic; simp)+
  then have r: "representable (pow2 k)" "representable (- pow2 k)" by simp_all
  from assms(1) have "y \<le> pow2 k" "- pow2 k \<le> y" by linarith+
  with r have "fl y \<le> pow2 k" "- pow2 k \<le> fl y" by (auto intro: fl_le fl_ge)
  then show ?thesis by linarith
qed

lemma funpow_fixed: "f x = x \<Longrightarrow> (f ^^ n) x = x"
  by (induction n) simp_all

text \<open>
  Claim C5, as stated, fails in double precision.  The equality is exact for real
  numbers; the code rounds each of the three operations, and \<open>0.1\<close> is not a double.
  A player at \<open>x = 4 - 2 ^ -49\<close>, the fourth double below the target \<open>4\<close> of the
  right lane, does not move at all: the increment, a tenth of the distance, is less
  than half the spacing of the doubles there, and the sum rounds back to \<open>x\<close>.  So
  after any number of ticks, here 100, the distance is still \<open>2 ^ -49\<close> and has not
  shrunk by \<open>0.9 ^ 100\<close>.  And from \<open>x = 0\<close> the first tick gives
  \<open>4 * fl 0.1\<close>, which is not \<open>0.4\<close>.
\<close>

theorem lane_decay_counterexample:
  "targetX rightLane = 4 \<and> px stalled = 4 - 1 / 2 ^ 49 \<and>
   playerUpdate rightLane stalled = stalled \<and>
   (playerUpdate rightLane ^^ 100) stalled = stalled \<and>
   \<bar>px ((playerUpdate rightLane ^^ 100) stalled) - targetX rightLane\<bar> = 1 / 2 ^ 49 \<and>
   \<bar>px stalled - targetX rightLane\<bar> * (9 / 10) ^ 100 < 1 / 2 ^ 49 \<and>
   px (playerUpdate rightLane \<lparr> px = 0, py = 0, pz = 0 \<rparr>) = 3602879701896397 / 2 ^ 53 \<and>
   px (playerUpdate rightLane \<lparr> px = 0, py = 0, pz = 0 \<rparr>) \<noteq> 4 / 10"
proof -
  have s: "(playerUpdate rightLane ^^ 100) stalled = stalled"
    using stalled_fixed by (rule funpow_fixed)
  have x: "px stalled = 4 - 1 / 2 ^ 49" by (simp add: stalled_def)
  have "(9 / 10 :: real) ^ 100 < 1"
    using power_strict_decreasing [of 0 100 "9 / 10 :: real"] by simp
  then have "(1 / 2 ^ 49) * (9 / 10 :: real) ^ 100 < (1 / 2 ^ 49) * 1"
    by (intro mult_strict_left_mono) simp_all
  then have l: "\<bar>px stalled - targetX rightLane\<bar> * (9 / 10) ^ 100 < 1 / 2 ^ 49"
    by (simp add: x rightLane_target)
  from s x l stalled_fixed rightLane_target first_tick show ?thesis
    by simp
qed

text \<open>
  Claim C5, amended.  From every starting position that is a double, with a fixed
  target, and with magnitudes up to \<open>2 ^ 1022\<close> (so that no intermediate result
  reaches \<open>2 ^ 1024\<close>): \<open>x\<close> never overshoots the target and never changes sides,
  the sign of \<open>targetX - x\<close> being the same after every tick; the distance
  \<open>\<bar>x - targetX\<bar>\<close> never grows from one tick to the next; and after \<open>N\<close> ticks it
  is \<open>\<bar>x0 - targetX\<bar> * 0.9 ^ N\<close> up to the accumulated rounding error, which is at
  most \<open>30 * (max \<bar>x0\<bar> \<bar>targetX\<bar> / 2 ^ 53 + 2 ^ -1075)\<close> whatever \<open>N\<close> is.  Every
  position on the way is a double of magnitude at most \<open>2 ^ 1022\<close> again.
\<close>

theorem lane_position_decay:
  assumes "representable (px p)" "\<bar>px p\<bar> \<le> pow2 1022"
    "\<bar>of_int (currentLane gs) * laneDistance gs\<bar> \<le> pow2 1022"
  shows "sgn (targetX gs - px ((playerUpdate gs ^^ N) p)) = sgn (targetX gs - px p) \<and>
         \<bar>px ((playerUpdate gs ^^ Suc N) p) - targetX gs\<bar> \<le> \<bar>px ((playerUpdate gs ^^ N) p) - targetX gs\<bar> \<and>
         \<bar>\<bar>px ((playerUpdate gs ^^ N) p) - targetX gs\<bar> - \<bar>px p - targetX gs\<bar> * (9 / 10) ^ N\<bar> \<le>
           30 * (max \<bar>px p\<bar> \<bar>targetX gs\<bar> / 2 ^ 53 + pow2 (- 1075)) \<and>
         representable (px ((playerUpdate gs ^^ N) p)) \<and>
         \<bar>px ((playerUpdate gs ^^ N) p)\<bar> \<le> pow2 1022"
proof -
  define t where "t = targetX gs"
  define x where "x = px p"
  define z where "z = (approach t ^^ N) x"
  define E where "E = 3 * max \<bar>x\<bar> \<bar>t\<bar> / 2 ^ 53 + 3 * pow2 (- 1075)"
  define r :: real where "r = (9 / 10) ^ N"
  have rt: "representable t" unfolding t_def targetX_def by (rule representable_fl)
  have rx: "representable x" using assms(1) by (simp add: x_def)
  have tb: "\<bar>t\<bar> \<le> pow2 1022"
    unfolding t_def targetX_def using assms(3) by (rule fl_bounded) simp
  have zN: "px ((playerUpdate gs ^^ N) p) = z"
    by (simp only: playerUpdate_funpow z_def t_def x_def)
  have zS: "px ((playerUpdate gs ^^ Suc N) p) = approach t z"
    by (simp only: playerUpdate_funpow z_def t_def x_def) simp
  have i: "representable z" "sgn (t - z) = sgn (t - x)" "\<bar>z\<bar> \<le> max \<bar>x\<bar> \<bar>t\<bar>"
    using approach_iter [OF rx rt, of N] by (simp_all add: z_def)
  have m: "\<bar>approach t z - t\<bar> \<le> \<bar>z - t\<bar>"
    using i(1) rt by (rule approach_step)
  have r01: "0 \<le> r" "r \<le> 1" unfolding r_def by (simp_all add: power_le_one)
  have E0: "0 \<le> E" unfolding E_def using pow2_pos [of "- 1075"] by simp
  have "\<bar>(z - t) - (x - t) * r\<bar> \<le> 10 * (1 - r) * E"
    unfolding z_def r_def E_def using rx rt by (rule approach_decay)
  also have "\<dots> \<le> 10 * 1 * E"
    using r01 E0 by (intro mult_mono) simp_all
  finally have d: "\<bar>(z - t) - (x - t) * r\<bar> \<le> 10 * E" by simp
  have "\<bar>\<bar>z - t\<bar> - \<bar>(x - t) * r\<bar>\<bar> \<le> \<bar>(z - t) - (x - t) * r\<bar>" by (rule abs_triangle_ineq3)
  moreover have "\<bar>(x - t) * r\<bar> = \<bar>x - t\<bar> * r" using r01 by (simp add: abs_mult)
  ultimately have "\<bar>\<bar>z - t\<bar> - \<bar>x - t\<bar> * r\<bar> \<le> 10 * E" using d by simp
  then have e: "\<bar>\<bar>z - t\<bar> - \<bar>x - t\<bar> * r\<bar> \<le> 30 * (max \<bar>x\<bar> \<bar>t\<bar> / 2 ^ 53 + pow2 (- 1075))"
    by (simp add: E_def)
  have zb: "\<bar>z\<bar> \<le> pow2 1022"
    using i(3) assms(2) tb by (simp add: x_def)
  from i(1,2) m e zb show ?thesis
    unfolding zN zS by (simp only: t_def x_def r_def)
qed


theorem lane_position_decay_witness:
  "representable (px \<lparr> px = 0, py = 0, pz = 0 \<rparr>) \<and> \<bar>px \<lparr> px = 0, py = 0, pz = 0 \<rparr>\<bar> \<le> pow2 1022 \<and>
   \<bar>of_int (currentLane rightLane) * laneDistance rightLane\<bar> \<le> pow2 1022 \<and>
   targetX rightLane = 4 \<and>
   px ((playerUpdate rightLane ^^ 1) \<lparr> px = 0, py = 0, pz = 0 \<rparr>) = 3602879701896397 / 2 ^ 53 \<and>
   sgn (targetX rightLane - px ((playerUpdate rightLane ^^ 1) \<lparr> px = 0, py = 0, pz = 0 \<rparr>)) = 1 \<and>
   \<bar>\<bar>px ((playerUpdate rightLane ^^ 1) \<lparr> px = 0, py = 0, pz = 0 \<rparr>) - targetX rightLane\<bar> -
      \<bar>px \<lparr> px = 0, py = 0, pz = 0 \<rparr> - targetX rightLane\<bar> * (9 / 10) ^ 1\<bar> \<le>
     30 * (max \<bar>px \<lparr> px = 0, py = 0, pz = 0 \<rparr>\<bar> \<bar>targetX rightLane\<bar> / 2 ^ 53 + pow2 (- 1075))"
proof -
  let ?p = "\<lparr> px = 0, py = 0, pz = 0 \<rparr>"
  have h: "representable (px ?p)" "\<bar>px ?p\<bar> \<le> pow2 1022"
    "\<bar>of_int (currentLane rightLane) * laneDistance rightLane\<bar> \<le> pow2 1022"
    by (simp_all add: representable_zero pow2_numeral rightLane_def defaultGameState_def)
  have f: "px ((playerUpdate rightLane ^^ 1) ?p) = 3602879701896397 / 2 ^ 53"
    using first_tick by simp
  from lane_position_decay [OF h, of 1]
  have "sgn (targetX rightLane - px ((playerUpdate rightLane ^^ 1) ?p)) = sgn (targetX rightLane - px ?p)"
    and "\<bar>\<bar>px ((playerUpdate rightLane ^^ 1) ?p) - targetX rightLane\<bar> -
      \<bar>px ?p - targetX rightLane\<bar> * (9 / 10) ^ 1\<bar> \<le>
     30 * (max \<bar>px ?p\<bar> \<bar>targetX rightLane\<bar> / 2 ^ 53 + pow2 (- 1075))"
    by blast+
  moreover have "sgn (targetX rightLane - px ?p) = 1"
    by (simp add: rightLane_target)
  ultimately show ?thesis
    using h f rightLane_target by simp
qed

section \<open>Lanes of the game state\<close>

text \<open>
  Claim C6.  In every run of a mounted canvas (key presses, drags, frames, timers,
  restarts, loads, in any order) \<open>currentLane\<close> is \<open>-1\<close>, \<open>0\<close> or \<open>1\<close>.  The
  left intent sets it to \<open>max (currentLane - 1) (-1)\<close> and the right intent to
  \<open>min (currentLane + 1) 1\<close>.  The arrow keys issue these intents whenever the
  \<open>gameState\<close> that \<open>handleKeyDown\<close> sees is active; the listener of the running
  game sees the state of the first render, so the left and right keys issue them in
  every state, also when the game is over.  A drag issues them for a horizontal swipe
  of more than 10 pixels.
\<close>

theorem lane_stays_in_range:
  "currentLane (gameState (run es mounted)) \<in> {- 1, 0, 1} \<and>
   currentLane (gameState (laneLeft w)) = max (currentLane (gameState w) - 1) (- 1) \<and>
   currentLane (gameState (laneRight w)) = min (currentLane (gameState w) + 1) 1 \<and>
   handleKeyDown seen ''ArrowLeft'' w = (if active seen then laneLeft w else w) \<and>
   handleKeyDown seen ''ArrowRight'' w = (if active seen then laneRight w else w) \<and>
   step (KeyDown ''ArrowLeft'') w = laneLeft w \<and>
   step (KeyDown ''ArrowRight'') w = laneRight w \<and>
   currentLane (gameState (onDrag mx my dx dy w)) =
     (if \<bar>mx\<bar> > 10 \<and> \<bar>mx\<bar> > \<bar>my\<bar>
      then (if dx > 0 then currentLane (gameState (laneRight w))
            else if dx < 0 then currentLane (gameState (laneLeft w))
            else currentLane (gameState w))
      else currentLane (gameState w))"
proof -
  have "currentLane (gameState (run es mounted)) \<in> {- 1, 0, 1}"
    by (rule run_lane) (simp add: mounted_fields)
  moreover have "handleKeyDown seen ''ArrowLeft'' w = (if active seen then laneLeft w else w)"
    "handleKeyDown seen ''ArrowRight'' w = (if active seen then laneRight w else w)"
    by (simp_all add: handleKeyDown_def)
  moreover have "step (KeyDown ''ArrowLeft'') w = laneLeft w"
    "step (KeyDown ''ArrowRight'') w = laneRight w"
    by (simp_all add: handleKeyDown_def defaultGameState_def)
  ultimately show ?thesis
    by (simp add: lane_intents onDrag_lane del: insert_iff step.simps)
qed

section \<open>The coin pool\<close>











section \<open>Updates before the player exists\<close>

text \<open>
  Claim C9.  Called without a player, \<open>updateObstacles\<close> and \<open>updateCoins\<close> return
  what they were given: barriers, cursor, coins and game state are unchanged and the
  callback has not acted on the caller's state.  A whole frame of a canvas whose
  player has not loaded changes nothing either.  Neither function has an error
  result.
\<close>

theorem updates_without_player_are_noops:
  "updateObstacles rand None gs onCollision s = s \<and>
   updateCoins randc hit None refresh t = t \<and>
   animate rand randc hit delta (w \<lparr> player := None \<rparr>) = w \<lparr> player := None \<rparr>"
  by (simp add: updateObstacles_def updateCoins_def animate_def movePlayer_def obstaclesTick_def
      coinsTick_def updatePlayer_def)

section \<open>Lanes of the player and lanes of the barriers\<close>

text \<open>
  Claim C10.  The barrier lanes \<open>LANE_OFFSETS = [-3, 1, 5]\<close> are the player's lane
  targets \<open>-4, 0, 4\<close> shifted by \<open>+1\<close>; all the same, in each of the three lanes a
  player standing on the lane target (at \<open>y = 0\<close>, \<open>z = 0\<close>) and a barrier of that
  lane's slot intersect whenever the barrier's \<open>z\<close> is between \<open>-1.2\<close> and \<open>1.5\<close>,
  in particular at the player's own \<open>z\<close>.
\<close>

theorem same_lane_collision_detectable:
  "LANE_OFFSETS = map (\<lambda>l. laneTarget l + 1) [- 1, 0, 1] \<and>
   (\<forall>l \<in> {- 1, 0, 1}. \<forall>zb. - 6 / 5 \<le> zb \<and> zb \<le> 3 / 2 \<longrightarrow>
      collides \<lparr> px = laneTarget l, py = 0, pz = 0 \<rparr>
               \<lparr> px = LANE_OFFSETS ! nat (l + 1), py = 1 / 2, pz = zb \<rparr>)"
  by (auto simp: LANE_OFFSETS_def laneTarget_def targetX_def defaultGameState_def collides_def
      intersectsBox_def playerBox_def barrierBox_def fl_zero fl_lanes)

theorem same_lane_collision_detectable_witness:
  "(1 :: int) \<in> {- 1, 0, 1} \<and> - 6 / 5 \<le> (0 :: real) \<and> (0 :: real) \<le> 3 / 2 \<and>
   collides \<lparr> px = laneTarget 1, py = 0, pz = 0 \<rparr>
            \<lparr> px = LANE_OFFSETS ! nat (1 + 1), py = 1 / 2, pz = 0 \<rparr>"
proof -
  have l: "(1 :: int) \<in> {- 1, 0, 1}" by simp
  have z: "- 6 / 5 \<le> (0 :: real) \<and> (0 :: real) \<le> 3 / 2" by simp
  from same_lane_collision_detectable l z
  have "collides \<lparr> px = laneTarget 1, py = 0, pz = 0 \<rparr>
                 \<lparr> px = LANE_OFFSETS ! nat (1 + 1), py = 1 / 2, pz = 0 \<rparr>"
    by blast
  with l z show ?thesis by blast
qed

section \<open>Collisions\<close>

lemma updateObstacles_indep:
  "fst (updateObstacles rand (Some p) gs cb (ob, c)) = fst (updateObstacles rand (Some p') gs cb' (ob, c'))"
  using forEachBarrier_indep [of rand "speed gs * 2" p cb 0 "barriers ob" "lastBarrierZ ob" "spawnLog ob" c p' cb' c']
  by (simp add: updateObstacles_def placements_def case_prod_beta)

lemma updateObstacles_length:
  "length (barriers (fst (updateObstacles rand pl gs cb (ob, c)))) = length (barriers ob)"
  by (simp add: updateObstacles_def case_prod_beta forEachBarrier_length split: option.splits)

lemma animate_collision:
  assumes a: "gameActive w"
    and q: "player (animate rand randc hit delta w) = Some q"
    and b: "b \<in> set (barriers (obst (animate rand randc hit delta w)))"
    and c: "collides q b"
  shows "\<not> gameActive (animate rand randc hit delta w) \<and>
         \<not> active (gameState (animate rand randc hit delta w))"
proof -
  define w2 where "w2 = movePlayer delta w"
  obtain ob k where o: "obstaclesTick rand w2 = ((gameOver ^^ k) w2) \<lparr> obst := ob \<rparr>"
    and k: "case player w2 of None \<Rightarrow> k = 0 \<and> ob = obst w2
      | Some p \<Rightarrow> k = length (filter (collides p) (barriers ob)) \<and>
          ob = fst (updateObstacles rand (Some p) (gameState w2) gameOver (obst w2, w2))"
    using obstaclesTick_shape [of rand w2] by (elim exE conjE)
  obtain cs n where cn: "coinsTick randc hit (obstaclesTick rand w2) =
      (obstaclesTick rand w2)
        \<lparr> coins := cs, gameState := (gameState (obstaclesTick rand w2))
             \<lparr> coinCount := coinCount (gameState (obstaclesTick rand w2)) + int n \<rparr> \<rparr>"
    using coinsTick_shape [of randc hit "obstaclesTick rand w2"] by (elim exE conjE)
  have an: "animate rand randc hit delta w = coinsTick randc hit (obstaclesTick rand w2)"
    using a by (simp add: animate_def w2_def)
  have pl: "player (animate rand randc hit delta w) = player w2"
    by (simp add: an cn) (simp add: o gameOver_funpow gameOver_def)
  have ob: "obst (animate rand randc hit delta w) = ob"
    by (simp add: an cn) (simp add: o)
  from q pl have p2: "player w2 = Some q" by simp
  with k have "k = length (filter (collides q) (barriers ob))" by simp
  moreover from b c ob have "filter (collides q) (barriers ob) \<noteq> []"
    by (auto simp: filter_empty_conv)
  ultimately have "k \<noteq> 0" by simp
  then have "obstaclesTick rand w2 = (gameOver w2) \<lparr> obst := ob \<rparr>"
    by (simp add: o gameOver_funpow)
  then have "\<not> gameActive (obstaclesTick rand w2)" "\<not> active (gameState (obstaclesTick rand w2))"
    by (simp_all add: gameOver_def)
  then show ?thesis
    by (simp add: an cn)
qed

text \<open>
  Claim C3.  In one call of \<open>updateObstacles\<close> the callback is applied once for
  each barrier whose box, after the barrier's move, intersects the player's: with
  \<open>k\<close> such barriers it is applied \<open>k\<close> times.  What the call leaves in the
  module (barriers, cursor) does not depend on the player or on the callback, so a
  collision neither moves nor removes a barrier, and the array keeps its length.
  In a frame of an active game, if a barrier intersects the player after the frame's
  moves, then the frame ends with \<open>gameActive\<close> and \<open>gameState.active\<close> both false.
\<close>

theorem collision_callback_once_per_barrier:
  "snd (updateObstacles rand (Some p) gs cb (ob, c)) =
     (cb ^^ length (filter (collides p) (barriers (fst (updateObstacles rand (Some p) gs cb (ob, c)))))) c \<and>
   fst (updateObstacles rand (Some p) gs cb (ob, c)) = fst (updateObstacles rand (Some p') gs cb' (ob, c')) \<and>
   length (barriers (fst (updateObstacles rand (Some p) gs cb (ob, c)))) = length (barriers ob) \<and>
   (gameActive w \<and> player (animate rand randc hit delta w) = Some q \<and>
    (\<exists>b \<in> set (barriers (obst (animate rand randc hit delta w))). collides q b) \<longrightarrow>
      \<not> gameActive (animate rand randc hit delta w) \<and>
      \<not> active (gameState (animate rand randc hit delta w)))"
  using updateObstacles_ctx [of rand p gs cb ob c] updateObstacles_indep [of rand p gs cb ob c p' cb' c']
    updateObstacles_length [of rand "Some p" gs cb ob c] animate_collision [of w rand randc hit delta q]
  by blast

lemma collisionScene_frame:
  "animate (\<lambda>_. 0) (\<lambda>_ _. 0) (\<lambda>_ _. False) (1 / 60) collisionScene =
     collisionScene
       \<lparr> gameActive := False, gameState := defaultGameState \<lparr> active := False \<rparr>,
         obst := \<lparr> barriers = [\<lparr> px = 1, py = 1 / 2, pz = - 2 / 5 \<rparr>], lastBarrierZ = - 65,
                  spawnLog = [- 40] \<rparr> \<rparr>"
  by (simp add: animate_def collisionScene_def movePlayer_def updatePlayer_def playerUpdate_def
      targetX_def obstaclesTick_def updateObstacles_def moveBarrier_def collides_def
      intersectsBox_def playerBox_def barrierBox_def coinsTick_def updateCoins_def gameOver_def
      defaultGameState_def Let_def approach_rest)

theorem collision_callback_once_per_barrier_witness:
  "gameActive collisionScene \<and>
   player (animate (\<lambda>_. 0) (\<lambda>_ _. 0) (\<lambda>_ _. False) (1 / 60) collisionScene) = Some \<lparr> px = 0, py = 0, pz = 0 \<rparr> \<and>
   (\<exists>b \<in> set (barriers (obst (animate (\<lambda>_. 0) (\<lambda>_ _. 0) (\<lambda>_ _. False) (1 / 60) collisionScene))).
      collides \<lparr> px = 0, py = 0, pz = 0 \<rparr> b) \<and>
   \<not> gameActive (animate (\<lambda>_. 0) (\<lambda>_ _. 0) (\<lambda>_ _. False) (1 / 60) collisionScene) \<and>
   \<not> active (gameState (animate (\<lambda>_. 0) (\<lambda>_ _. 0) (\<lambda>_ _. False) (1 / 60) collisionScene))"
proof -
  let ?w = "animate (\<lambda>_. 0) (\<lambda>_ _. 0) (\<lambda>_ _. False) (1 / 60) collisionScene"
  have g: "gameActive collisionScene"
    by (simp add: collisionScene_def)
  have p: "player ?w = Some \<lparr> px = 0, py = 0, pz = 0 \<rparr>"
    by (simp add: collisionScene_frame) (simp add: collisionScene_def)
  have b: "\<exists>b \<in> set (barriers (obst ?w)). collides \<lparr> px = 0, py = 0, pz = 0 \<rparr> b"
    by (simp add: collisionScene_frame collides_def intersectsBox_def playerBox_def barrierBox_def)
  from g p b collision_callback_once_per_barrier [where w = collisionScene and rand = "\<lambda>_. 0"
      and randc = "\<lambda>_ _. 0" and hit = "\<lambda>_ _. False" and delta = "1 / 60"
      and q = "\<lparr> px = 0, py = 0, pz = 0 \<rparr>", THEN conjunct2, THEN conjunct2, THEN conjunct2]
  have "\<not> gameActive ?w \<and> \<not> active (gameState ?w)"
    by blast
  with g p b show ?thesis by blast
qed

section \<open>Spacing of the barriers\<close>

lemma forEachBarrier_shift:
  assumes "\<forall>b \<in> set bs. pz b + spd \<le> 10 \<and> \<not> collides p (b \<lparr> pz := pz b + spd \<rparr>)"
  shows "forEachBarrier rand spd p cb i bs cur lg c = (map (\<lambda>b. b \<lparr> pz := pz b + spd \<rparr>) bs, cur, lg, c)"
  using assms by (induction bs arbitrary: i) (simp_all add: moveBarrier_def Let_def)

lemma left_lane_misses: "px b = - 3 \<Longrightarrow> \<not> collides \<lparr> px = 0, py = 0, pz = 0 \<rparr> b"
  by (simp add: collides_def intersectsBox_def playerBox_def barrierBox_def)

lemma shift_arith:
  "(a :: real) + real (Suc n) * (3 / 5) \<le> 10 \<Longrightarrow> a + 3 / 5 + real n * (3 / 5) \<le> 10"
  "(a :: real) + real (Suc n) * (3 / 5) \<le> 10 \<Longrightarrow> a + 3 / 5 \<le> 10"
proof -
  assume h: "a + real (Suc n) * (3 / 5) \<le> 10"
  show "a + 3 / 5 + real n * (3 / 5) \<le> 10"
    using h by (simp add: field_simps)
  have "0 \<le> real n * (3 / 5)" by simp
  with h show "a + 3 / 5 \<le> 10" by (simp add: field_simps)
qed

lemma demoFrames_shift:
  assumes "\<forall>b \<in> set (barriers ob). px b = - 3 \<and> pz b + real n * (3 / 5) \<le> 10"
  shows "obstacleFrames (demoFrames n) id (ob, ()) =
           (ob \<lparr> barriers := map (\<lambda>b. b \<lparr> pz := pz b + real n * (3 / 5) \<rparr>) (barriers ob) \<rparr>, ())"
  using assms
proof (induction n arbitrary: ob)
  case 0
  show ?case by (simp add: obstacleFrames_def demoFrames_def)
next
  case (Suc n)
  let ?p = "\<lparr> px = 0, py = 0, pz = 0 \<rparr>"
  let ?ob = "ob \<lparr> barriers := map (\<lambda>b. b \<lparr> pz := pz b + 3 / 5 \<rparr>) (barriers ob) \<rparr>"
  have far: "\<forall>b \<in> set (barriers ob). pz b + 3 / 5 \<le> 10 \<and> \<not> collides ?p (b \<lparr> pz := pz b + 3 / 5 \<rparr>)"
  proof (intro ballI conjI)
    fix b assume b: "b \<in> set (barriers ob)"
    from Suc.prems b have z: "pz b + real (Suc n) * (3 / 5) \<le> 10" and x: "px b = - 3"
      by blast+
    from z show "pz b + 3 / 5 \<le> 10" by (rule shift_arith(2))
    from x show "\<not> collides ?p (b \<lparr> pz := pz b + 3 / 5 \<rparr>)" by (simp add: left_lane_misses)
  qed
  have one: "updateObstacles (\<lambda>_. 0) (Some ?p) defaultGameState id (ob, ()) = (?ob, ())"
    using forEachBarrier_shift [OF far, of "\<lambda>_. 0" id 0 "lastBarrierZ ob" "spawnLog ob" "()"]
    by (simp add: updateObstacles_def defaultGameState_def)
  have "\<forall>b \<in> set (barriers ?ob). px b = - 3 \<and> pz b + real n * (3 / 5) \<le> 10"
  proof (intro ballI conjI)
    fix b assume "b \<in> set (barriers ?ob)"
    then obtain b0 where b0: "b0 \<in> set (barriers ob)" and b: "b = b0 \<lparr> pz := pz b0 + 3 / 5 \<rparr>"
      by auto
    from Suc.prems b0 have z: "pz b0 + real (Suc n) * (3 / 5) \<le> 10" and x: "px b0 = - 3"
      by blast+
    from x b show "px b = - 3" by simp
    from z have "pz b0 + 3 / 5 + real n * (3 / 5) \<le> 10" by (rule shift_arith(1))
    with b show "pz b + real n * (3 / 5) \<le> 10" by simp
  qed
  then have ih: "obstacleFrames (demoFrames n) id (?ob, ()) =
           (?ob \<lparr> barriers := map (\<lambda>b. b \<lparr> pz := pz b + real n * (3 / 5) \<rparr>) (barriers ?ob) \<rparr>, ())"
    by (rule Suc.IH)
  have st: "obstacleFrames (demoFrames (Suc n)) id (ob, ()) =
      obstacleFrames (demoFrames n) id (updateObstacles (\<lambda>_. 0) (Some ?p) defaultGameState id (ob, ()))"
    by (simp add: obstacleFrames_def demoFrames_def)
  have eq: "?ob \<lparr> barriers := map (\<lambda>b. b \<lparr> pz := pz b + real n * (3 / 5) \<rparr>) (barriers ?ob) \<rparr> =
            ob \<lparr> barriers := map (\<lambda>b. b \<lparr> pz := pz b + real (Suc n) * (3 / 5) \<rparr>) (barriers ob) \<rparr>"
    by (simp add: comp_def field_simps)
  show ?case
    by (simp only: st one ih eq)
qed

lemma upt10: "[0..<10] = [0, 1, 2, 3, 4, 5, 6, 7, 8, 9]"
  by (simp add: upt_rec)

lemma init_left_lane:
  "barriersLoaded (\<lambda>_. 0) initialObstacles =
     \<lparr> barriers = map (\<lambda>z. \<lparr> px = - 3, py = 1 / 2, pz = z \<rparr>)
                    [- 40, - 65, - 90, - 115, - 140, - 165, - 190, - 215, - 240, - 265],
       lastBarrierZ = - 290,
       spawnLog = [- 40, - 65, - 90, - 115, - 140, - 165, - 190, - 215, - 240, - 265] \<rparr>"
  by (simp add: barriersLoaded_def MAX_BARRIERS_def upt10 barrierLoaded_def initialObstacles_def
      LANE_OFFSETS_def laneIndex_def MIN_BARRIER_SPACING_def Let_def)

lemma demoRun_83:
  "demoRun 83 =
     \<lparr> barriers = map (\<lambda>z. \<lparr> px = - 3, py = 1 / 2, pz = z \<rparr>)
                    [49 / 5, - 76 / 5, - 201 / 5, - 326 / 5, - 451 / 5, - 576 / 5, - 701 / 5,
                     - 826 / 5, - 951 / 5, - 1076 / 5],
       lastBarrierZ = - 290,
       spawnLog = [- 40, - 65, - 90, - 115, - 140, - 165, - 190, - 215, - 240, - 265] \<rparr>"
  unfolding demoRun_def init_left_lane
  by (subst demoFrames_shift) simp_all

lemma demoRun_Suc:
  "demoRun (Suc n) =
     fst (updateObstacles (\<lambda>_. 0) (Some \<lparr> px = 0, py = 0, pz = 0 \<rparr>) defaultGameState id (demoRun n, ()))"
proof -
  have "demoFrames (Suc n) =
      demoFrames n @ [(\<lambda>_. 0, Some \<lparr> px = 0, py = 0, pz = 0 \<rparr>, defaultGameState)]"
    by (simp add: demoFrames_def replicate_append_same)
  moreover have "(fst x, ()) = x" for x :: "obstacles \<times> unit"
    by (cases x) simp
  ultimately show ?thesis
    by (simp add: demoRun_def obstacleFrames_def)
qed

lemma demoRun_84:
  "spawnLog (demoRun 84) = [- 40, - 65, - 90, - 115, - 140, - 165, - 190, - 215, - 240, - 265, - 315]"
proof -
  have "demoRun 84 = fst (updateObstacles (\<lambda>_. 0) (Some \<lparr> px = 0, py = 0, pz = 0 \<rparr>) defaultGameState id (demoRun 83, ()))"
    using demoRun_Suc [of 83] by simp
  then show ?thesis
    by (simp add: demoRun_83 updateObstacles_def moveBarrier_def collides_def intersectsBox_def
        playerBox_def barrierBox_def defaultGameState_def LANE_OFFSETS_def laneIndex_def
        MIN_BARRIER_SPACING_def Let_def)
qed

text \<open>
  Claim C1.  The cursor is used in two ways.  The callback of \<open>initObstacles\<close>
  places a barrier at the cursor and then moves the cursor on, so after the ten
  initial placements, the last of them at \<open>-265\<close>, the cursor \<open>-290\<close> is a slot
  that has not been used.  \<open>updateObstacles\<close> takes the cursor for the last slot
  used and places a recycled barrier one spacing behind it.  So the first recycled
  barrier, which at the default speed comes with the 84th frame, goes to \<open>-315\<close>:
  consecutive spawn Z values that differ by \<open>50\<close> and not by
  \<open>MIN_BARRIER_SPACING = 25\<close>.  All draws are \<open>0\<close> and the player stands at the
  origin; neither matters to the Z values.
\<close>

theorem first_recycle_skips_a_slot:
  "spawnLog (demoRun 83) = [- 40, - 65, - 90, - 115, - 140, - 165, - 190, - 215, - 240, - 265] \<and>
   lastBarrierZ (demoRun 83) = - 290 \<and>
   spawnLog (demoRun 84) = [- 40, - 65, - 90, - 115, - 140, - 165, - 190, - 215, - 240, - 265, - 315] \<and>
   spawnLog (demoRun 84) ! 9 - spawnLog (demoRun 84) ! 10 = 2 * MIN_BARRIER_SPACING \<and>
   spawnLog (demoRun 84) ! 9 - spawnLog (demoRun 84) ! 10 \<noteq> MIN_BARRIER_SPACING"
  by (simp add: demoRun_84 demoRun_83 MIN_BARRIER_SPACING_def)

section \<open>The jump\<close>






































































section \<open>The animation sequencer\<close>

lemma resumed_snoc: "resumed (xs @ [x]) = resumed xs @ [x, ''run'']"
  by (simp add: resumed_def)

lemma butlast_resumed_snoc: "butlast (resumed (xs @ [x])) = resumed xs @ [x]"
  by (simp add: resumed_snoc butlast_append)

lemma resumed_butlast_run: "xs \<noteq> [] \<Longrightarrow> butlast (resumed xs) @ [''run''] = resumed xs"
  by (cases xs rule: rev_cases) (simp_all add: resumed_snoc butlast_append)

lemma processQueue_start:
  assumes "\<not> isAnimating w" "animationQueue w = r # rest" "player w \<noteq> None"
  shows "processQueue w =
           w \<lparr> animationQueue := rest, isAnimating := True,
               played := played w @ [animationName r],
               timers := timers w @ [\<lparr> due = now w + duration r, completes = onComplete r, plays = True \<rparr>] \<rparr>"
  using assms by (simp add: processQueue_def playAnimation_def Let_def)

lemma processQueue_idle:
  "isAnimating w \<or> animationQueue w = [] \<Longrightarrow> processQueue w = w"
  by (auto simp: processQueue_def)

lemma seqInv_enqueue:
  assumes "seqInv w0 names started w"
  shows "\<exists>started'. seqInv w0 (names @ [animationName r]) started' (playAndResetAnimation r w)"
proof (cases "isAnimating w")
  case True
  then have "playAndResetAnimation r w = w \<lparr> animationQueue := animationQueue w @ [r] \<rparr>"
    by (simp add: playAndResetAnimation_def processQueue_idle)
  with assms True show ?thesis
    by (intro exI [of _ started]) (simp add: seqInv_def)
next
  case False
  with assms have q: "animationQueue w = []" and p: "player w \<noteq> None"
    by (simp_all add: seqInv_def)
  have "playAndResetAnimation r w =
      w \<lparr> animationQueue := [], isAnimating := True, played := played w @ [animationName r],
          timers := timers w @ [\<lparr> due = now w + duration r, completes = onComplete r, plays = True \<rparr>] \<rparr>"
    using False q p
    by (simp add: playAndResetAnimation_def processQueue_start [where r = r and rest = "[]"])
  with assms False q show ?thesis
    by (intro exI [of _ "started @ [animationName r]"]) (simp add: seqInv_def butlast_resumed_snoc)
qed

lemma runCallback_seq:
  "animationQueue (runCallback cb w) = animationQueue w" "isAnimating (runCallback cb w) = isAnimating w"
  "played (runCallback cb w) = played w" "timers (runCallback cb w) = timers w"
  "player (runCallback cb w) = player w" "now (runCallback cb w) = now w"
  by (cases cb, simp)+

lemma seqInv_timeout:
  assumes "seqInv w0 names started w"
  shows "\<exists>started'. seqInv w0 names started' (timeout i w)"
proof (cases "i < length (timers w) \<and> due (timers w ! i) \<le> now w")
  case False
  then have "timeout i w = w"
    by (auto simp: timeout_def)
  with assms show ?thesis
    by (intro exI [of _ started]) simp
next
  case True
  with assms have an: "isAnimating w" and i0: "i = 0" and l1: "length (timers w) = 1"
    by (auto simp: seqInv_def split: if_splits)
  then obtain t where t: "timers w = [t]"
    by (cases "timers w") simp_all
  with assms have pt: "plays t" by (simp add: seqInv_def)
  from assms an have st: "started \<noteq> []" by (simp add: seqInv_def)
  define w1 where "w1 = (case completes t of None \<Rightarrow> w \<lparr> timers := [] \<rparr>
                         | Some cb \<Rightarrow> runCallback cb (w \<lparr> timers := [] \<rparr>))"
  define w2 where "w2 = w1 \<lparr> played := played w1 @ [''run''], isAnimating := False \<rparr>"
  have f1: "animationQueue w1 = animationQueue w" "played w1 = played w" "timers w1 = []"
      "player w1 = player w"
    by (simp_all add: w1_def runCallback_seq split: option.splits)
  have to: "timeout i w = processQueue w2"
    using True t i0 pt by (simp add: timeout_def completion_def w2_def w1_def Let_def)
  have f2: "animationQueue w2 = animationQueue w" "played w2 = played w @ [''run'']" "timers w2 = []"
      "player w2 = player w" "\<not> isAnimating w2"
    by (simp_all add: w2_def f1)
  from assms an st have pl: "played w2 = played w0 @ resumed started"
    by (simp add: f2 seqInv_def resumed_butlast_run)
  show ?thesis
  proof (cases "animationQueue w")
    case Nil
    then have "processQueue w2 = w2" by (simp add: processQueue_idle f2)
    with assms Nil pl f2 show ?thesis
      by (intro exI [of _ started]) (simp add: to seqInv_def)
  next
    case (Cons r rest)
    from assms have p: "player w2 \<noteq> None" by (simp add: f2 seqInv_def)
    have "processQueue w2 =
           w2 \<lparr> animationQueue := rest, isAnimating := True,
               played := played w2 @ [animationName r],
               timers := timers w2 @ [\<lparr> due = now w2 + duration r, completes = onComplete r, plays = True \<rparr>] \<rparr>"
      using f2 Cons p by (intro processQueue_start) simp_all
    with assms Cons pl f2 show ?thesis
      by (intro exI [of _ "started @ [animationName r]"])
         (simp add: to seqInv_def butlast_resumed_snoc)
  qed
qed

lemma seqInv_elapse: "seqInv w0 names started w \<Longrightarrow> seqInv w0 names started (elapse ms w)"
  by (simp add: seqInv_def elapse_def)

lemma requested_append: "requested (es @ es') = requested es @ requested es'"
  by (induction es rule: requested.induct) simp_all

lemma sequencer_snoc: "sequencer (es @ [e]) w = seqStep e (sequencer es w)"
  by (simp add: sequencer_def)

lemma seqInv_run:
  assumes "player w \<noteq> None" "\<not> isAnimating w" "animationQueue w = []" "timers w = []"
  shows "\<exists>started. seqInv w (requested es) started (sequencer es w)"
proof (induction es rule: rev_induct)
  case Nil
  from assms show ?case
    by (intro exI [of _ "[]"]) (simp add: seqInv_def sequencer_def resumed_def)
next
  case (snoc e es)
  then obtain started where i: "seqInv w (requested es) started (sequencer es w)"
    by blast
  show ?case
  proof (cases e)
    case (Enqueue r)
    with seqInv_enqueue [OF i, of r] show ?thesis
      by (simp add: requested_append sequencer_snoc)
  next
    case (Completes j)
    with seqInv_timeout [OF i, of j] show ?thesis
      by (simp add: requested_append sequencer_snoc)
  next
    case (Waits ms)
    with seqInv_elapse [OF i, of ms] show ?thesis
      by (auto simp: requested_append sequencer_snoc)
  qed
qed


lemma seqInv_started:
  assumes "seqInv w0 names started w"
  shows "started = take (length names - length (animationQueue w)) names"
    and "map animationName (animationQueue w) = drop (length names - length (animationQueue w)) names"
proof -
  from assms have n: "names = started @ map animationName (animationQueue w)"
    by (simp add: seqInv_def)
  then have "length names - length (animationQueue w) = length started"
    by simp
  with n show "started = take (length names - length (animationQueue w)) names"
    and "map animationName (animationQueue w) = drop (length names - length (animationQueue w)) names"
    by simp_all
qed

lemma enqueue_idle:
  assumes "player w \<noteq> None" "\<not> isAnimating w" "animationQueue w = []"
  shows "playAndResetAnimation r w =
           w \<lparr> animationQueue := [], isAnimating := True, played := played w @ [animationName r],
               timers := timers w @ [\<lparr> due = now w + duration r, completes = onComplete r, plays = True \<rparr>] \<rparr>"
  using assms
  by (simp add: playAndResetAnimation_def processQueue_start [where r = r and rest = "[]"])

lemma enqueue_busy:
  "isAnimating w \<Longrightarrow> playAndResetAnimation r w = w \<lparr> animationQueue := animationQueue w @ [r] \<rparr>"
  by (simp add: playAndResetAnimation_def processQueue_idle)

lemma scenario_states:
  assumes "player w \<noteq> None" "\<not> isAnimating w" "animationQueue w = []" "timers w = []"
  shows "sequencer [Enqueue jumpRequest, Enqueue rollRequest] w =
           w \<lparr> animationQueue := [rollRequest], isAnimating := True, played := played w @ [''jump''],
               timers := [\<lparr> due = now w + 800, completes = None, plays = True \<rparr>] \<rparr>"
    and "sequencer [Enqueue jumpRequest, Enqueue rollRequest, Waits 800, Completes 0] w =
           w \<lparr> animationQueue := [], isAnimating := True,
               played := played w @ [''jump'', ''run'', ''roll''],
               timers := [\<lparr> due = now w + 1990, completes = Some SlideDone, plays = True \<rparr>],
               now := now w + 800 \<rparr>"
proof -
  have s1: "playAndResetAnimation jumpRequest w =
           w \<lparr> animationQueue := [], isAnimating := True, played := played w @ [''jump''],
               timers := [\<lparr> due = now w + 800, completes = None, plays = True \<rparr>] \<rparr>"
    using assms by (simp add: enqueue_idle jumpRequest_def)
  show s2: "sequencer [Enqueue jumpRequest, Enqueue rollRequest] w =
           w \<lparr> animationQueue := [rollRequest], isAnimating := True, played := played w @ [''jump''],
               timers := [\<lparr> due = now w + 800, completes = None, plays = True \<rparr>] \<rparr>"
    by (simp add: sequencer_def s1 enqueue_busy)
  have "sequencer [Enqueue jumpRequest, Enqueue rollRequest, Waits 800, Completes 0] w =
      timeout 0 (elapse 800 (sequencer [Enqueue jumpRequest, Enqueue rollRequest] w))"
    by (simp add: sequencer_def)
  also have "\<dots> = processQueue
      (w \<lparr> animationQueue := [rollRequest], isAnimating := False,
           played := played w @ [''jump'', ''run''], timers := [], now := now w + 800 \<rparr>)"
    by (simp add: s2 elapse_def timeout_def completion_def Let_def,
        rule arg_cong [where f = processQueue], cases w, simp)
  also have "\<dots> = w \<lparr> animationQueue := [], isAnimating := True,
               played := played w @ [''jump'', ''run'', ''roll''],
               timers := [\<lparr> due = now w + 1990, completes = Some SlideDone, plays = True \<rparr>],
               now := now w + 800 \<rparr>"
    using assms
    by (subst processQueue_start [where r = rollRequest and rest = "[]"])
       (simp_all add: rollRequest_def)
  finally show "sequencer [Enqueue jumpRequest, Enqueue rollRequest, Waits 800, Completes 0] w =
           w \<lparr> animationQueue := [], isAnimating := True,
               played := played w @ [''jump'', ''run'', ''roll''],
               timers := [\<lparr> due = now w + 1990, completes = Some SlideDone, plays = True \<rparr>],
               now := now w + 800 \<rparr>" .
qed

lemma scenario_trace:
  assumes "player w \<noteq> None" "\<not> isAnimating w" "animationQueue w = []" "timers w = []"
  shows "played (sequencer [Enqueue jumpRequest, Enqueue rollRequest] w) = played w @ [''jump'']"
    and "played (sequencer [Enqueue jumpRequest, Enqueue rollRequest, Waits 799, Completes 0] w) =
           played w @ [''jump'']"
    and "played (sequencer [Enqueue jumpRequest, Enqueue rollRequest, Waits 800, Completes 0] w) =
           played w @ [''jump'', ''run'', ''roll'']"
    and "played (sequencer [Enqueue jumpRequest, Enqueue rollRequest, Waits 800, Completes 0,
                            Waits 1190, Completes 0] w) =
           played w @ [''jump'', ''run'', ''roll'', ''run'']"
proof -
  note s = scenario_states [OF assms]
  show "played (sequencer [Enqueue jumpRequest, Enqueue rollRequest] w) = played w @ [''jump'']"
    by (simp add: s(1))
  have "sequencer [Enqueue jumpRequest, Enqueue rollRequest, Waits 799, Completes 0] w =
      timeout 0 (elapse 799 (sequencer [Enqueue jumpRequest, Enqueue rollRequest] w))"
    by (simp add: sequencer_def)
  then show "played (sequencer [Enqueue jumpRequest, Enqueue rollRequest, Waits 799, Completes 0] w) =
           played w @ [''jump'']"
    by (simp add: s(1) elapse_def timeout_def)
  show "played (sequencer [Enqueue jumpRequest, Enqueue rollRequest, Waits 800, Completes 0] w) =
           played w @ [''jump'', ''run'', ''roll'']"
    by (simp add: s(2))
  have "sequencer [Enqueue jumpRequest, Enqueue rollRequest, Waits 800, Completes 0,
                   Waits 1190, Completes 0] w =
      timeout 0 (elapse 1190 (sequencer [Enqueue jumpRequest, Enqueue rollRequest, Waits 800, Completes 0] w))"
    by (simp add: sequencer_def)
  then show "played (sequencer [Enqueue jumpRequest, Enqueue rollRequest, Waits 800, Completes 0,
                            Waits 1190, Completes 0] w) =
           played w @ [''jump'', ''run'', ''roll'', ''run'']"
    by (simp add: s(2) elapse_def timeout_def completion_def processQueue_def Let_def)
qed

lemma idleCanvas_fields:
  "player idleCanvas \<noteq> None" "\<not> isAnimating idleCanvas" "animationQueue idleCanvas = []"
  "timers idleCanvas = []" "played idleCanvas = [''run'']"
  by (simp_all add: idleCanvas_def mounted_def initObstacles_def initCoins_def Let_def)

text \<open>
  Claim C8.  Started idle on a canvas whose player has loaded, and driven by any
  sequence of requests, timer completions and waits, the sequencer has one pending
  timer while it is animating and none otherwise; the requests still queued are the
  latest ones, in the order they were made; and the trace of \<open>playAnimation\<close> is
  the requested names in order, each followed by \<open>run\<close>, up to the animation in
  flight.  For the requests of a jump (800 ms) and a roll (1190 ms) made together:
  \<open>jump\<close> plays at once and \<open>roll\<close> does not; the timer cannot complete before
  800 ms have passed; when it completes, \<open>run\<close> is resumed and \<open>roll\<close> starts; and
  1190 ms later \<open>run\<close> is resumed again.
\<close>

theorem sequencer_one_at_a_time_fifo:
  assumes "player w \<noteq> None" "\<not> isAnimating w" "animationQueue w = []" "timers w = []"
  shows "length (timers (sequencer es w)) = (if isAnimating (sequencer es w) then 1 else 0) \<and>
     map animationName (animationQueue (sequencer es w)) =
       drop (length (requested es) - length (animationQueue (sequencer es w))) (requested es) \<and>
     played (sequencer es w) =
       played w @
       (if isAnimating (sequencer es w)
        then butlast (resumed (take (length (requested es) - length (animationQueue (sequencer es w)))
                                 (requested es)))
        else resumed (requested es)) \<and>
     played (sequencer [Enqueue jumpRequest, Enqueue rollRequest] w) = played w @ [''jump''] \<and>
     played (sequencer [Enqueue jumpRequest, Enqueue rollRequest, Waits 799, Completes 0] w) =
       played w @ [''jump''] \<and>
     played (sequencer [Enqueue jumpRequest, Enqueue rollRequest, Waits 800, Completes 0] w) =
       played w @ [''jump'', ''run'', ''roll''] \<and>
     played (sequencer [Enqueue jumpRequest, Enqueue rollRequest, Waits 800, Completes 0,
                        Waits 1190, Completes 0] w) =
       played w @ [''jump'', ''run'', ''roll'', ''run'']"
proof -
  obtain started where i: "seqInv w (requested es) started (sequencer es w)"
    using seqInv_run [OF assms] by blast
  note s = seqInv_started [OF i]
  from i have t: "length (timers (sequencer es w)) = (if isAnimating (sequencer es w) then 1 else 0)"
    by (simp add: seqInv_def)
  from i have p: "played (sequencer es w) =
      played w @ (if isAnimating (sequencer es w) then butlast (resumed started) else resumed started)"
    by (simp add: seqInv_def)
  have e: "started = requested es" if "\<not> isAnimating (sequencer es w)"
    using i that by (simp add: seqInv_def)
  have "played (sequencer es w) =
       played w @
       (if isAnimating (sequencer es w)
        then butlast (resumed (take (length (requested es) - length (animationQueue (sequencer es w)))
                                 (requested es)))
        else resumed (requested es))"
    using p e s(1) by auto
  with t s(2) scenario_trace [OF assms] show ?thesis
    by simp
qed

theorem sequencer_one_at_a_time_fifo_witness:
  "player idleCanvas \<noteq> None \<and> \<not> isAnimating idleCanvas \<and> animationQueue idleCanvas = [] \<and>
   timers idleCanvas = [] \<and>
   played (sequencer [Enqueue jumpRequest, Enqueue rollRequest, Waits 800, Completes 0,
                      Waits 1190, Completes 0] idleCanvas) =
     [''run'', ''jump'', ''run'', ''roll'', ''run'']"
  using sequencer_one_at_a_time_fifo [OF idleCanvas_fields(1,2,3,4), of "[]"] idleCanvas_fields
  by simp

section \<open>Restart and the sequencer's timer\<close>

text \<open>
  Claim C4 says that a restart leaves no completion step of an earlier animation to
  run against the state after the reset.  \<open>restartGame\<close> empties the queue and
  clears the busy flag, but the timer of \<open>processQueue\<close> stays pending.  In the
  scenario the game is over when the restart comes, and the restart leaves the
  sequencer idle with the first slide's timer still pending.  The second slide is
  then in progress (rolling, animating, sliding, \<open>roll\<close> playing, its timer due at
  1890 ms) when, at 1190 ms, the first slide's timer fires: its completion clears
  the rolling, busy and sliding flags and plays \<open>run\<close>, 490 ms into the second
  slide, whose own timer is still pending.
\<close>

theorem restart_leaves_stale_timer:
  "\<not> gameActive (run (take 4 restartScenario) collisionScene) \<and>
   \<not> active (gameState (run (take 4 restartScenario) collisionScene)) \<and>
   timers (run (take 5 restartScenario) collisionScene) =
     [\<lparr> due = 1190, completes = Some SlideDone, plays = True \<rparr>] \<and>
   \<not> isAnimating (run (take 5 restartScenario) collisionScene) \<and>
   animationQueue (run (take 5 restartScenario) collisionScene) = [] \<and>
   isRolling (run restartScenario collisionScene) \<and>
   isAnimating (run restartScenario collisionScene) \<and>
   isSliding (gameState (run restartScenario collisionScene)) \<and>
   last (played (run restartScenario collisionScene)) = ''roll'' \<and>
   now (run restartScenario collisionScene) = 1190 \<and>
   timers (run restartScenario collisionScene) =
     [\<lparr> due = 1190, completes = Some SlideDone, plays = True \<rparr>,
      \<lparr> due = 1890, completes = Some SlideDone, plays = True \<rparr>] \<and>
   \<not> isRolling (run (restartScenario @ [TimerFires 0]) collisionScene) \<and>
   \<not> isAnimating (run (restartScenario @ [TimerFires 0]) collisionScene) \<and>
   \<not> isSliding (gameState (run (restartScenario @ [TimerFires 0]) collisionScene)) \<and>
   last (played (run (restartScenario @ [TimerFires 0]) collisionScene)) = ''run'' \<and>
   timers (run (restartScenario @ [TimerFires 0]) collisionScene) =
     [\<lparr> due = 1890, completes = Some SlideDone, plays = True \<rparr>]"
  by (simp add: run_def onDrag_def slide_def jump_def playAndResetAnimation_def processQueue_def
      playAnimation_def elapse_def animate_def movePlayer_def updatePlayer_def playerUpdate_def
      targetX_def obstaclesTick_def updateObstacles_def moveBarrier_def collides_def
      intersectsBox_def playerBox_def barrierBox_def coinsTick_def updateCoins_def gameOver_def
      defaultGameState_def restartGame_def initObstacles_def initCoins_def timeout_def
      completion_def rollRequest_def approach_rest
      collisionScene_def restartScenario_def Let_def)

end
